theory Spec2Isabelle
  imports Main
begin

section \<open>The floor recorder: data model\<close>

text \<open>
  The program is one TypeScript module, \<^verbatim>\<open>src/main.ts\<close>, compiled to Lua and
  driven by three callbacks of the host game. Its module-level variables are the
  fields of the record \<open>state\<close>; every function of the module takes the state and
  returns the new one. What the module reads from the host is the record \<open>host\<close>
  (one snapshot per callback), and what it asks of the host is appended to the
  field \<open>out\<close>, in the order of the calls.
\<close>

subsection \<open>Enumerations of the host API\<close>

text \<open>
  Modelled from the spec: the enumerations \<^verbatim>\<open>LevelStage\<close>, \<^verbatim>\<open>StageType\<close>,
  \<^verbatim>\<open>Difficulty\<close>, \<^verbatim>\<open>Challenge\<close>, \<^verbatim>\<open>PlayerType\<close> and \<^verbatim>\<open>SeedEffect\<close> are
  declared by the host's type definitions, which are not among the sources. The
  spec fixes the ones that matter here: the first stage is 1, the excluded stages
  are 9 (Blue Womb) and 13 (Home), Home being the last ordinal, and the unused
  Greed-mode variant is ordinal 3 between the base variant 0 and the ceilings 4
  and 5. The remaining constants are only ever compared for equality.
\<close>

definition STAGE1_1 :: int where "STAGE1_1 = 1"
definition STAGE8 :: int where "STAGE8 = 13"

definition STAGETYPE_ORIGINAL :: int where "STAGETYPE_ORIGINAL = 0"
definition STAGETYPE_WOTL :: int where "STAGETYPE_WOTL = 1"
definition STAGETYPE_AFTERBIRTH :: int where "STAGETYPE_AFTERBIRTH = 2"
definition STAGETYPE_GREEDMODE :: int where "STAGETYPE_GREEDMODE = 3"
definition STAGETYPE_REPENTANCE :: int where "STAGETYPE_REPENTANCE = 4"
definition STAGETYPE_REPENTANCE_B :: int where "STAGETYPE_REPENTANCE_B = 5"

definition DIFFICULTY_NORMAL :: int where "DIFFICULTY_NORMAL = 0"
definition CHALLENGE_NULL :: int where "CHALLENGE_NULL = 0"
definition PLAYER_ISAAC :: int where "PLAYER_ISAAC = 0"
definition SEED_PREVENT_ALL_CURSES :: int where "SEED_PREVENT_ALL_CURSES = 70"

datatype ModCallbacks = MC_POST_RENDER | MC_POST_GAME_STARTED | MC_POST_NEW_LEVEL

subsection \<open>Constants of the module\<close>

definition MOD_NAME :: string where "MOD_NAME = ''isaac-floor-recorder''"
definition FINAL_STAGE :: int where "FINAL_STAGE = STAGE8"
definition VERBOSE :: bool where "VERBOSE = True"
definition NUMBER_OF_SEEDS_BEFORE_WRITING_TO_DISK :: nat where
  "NUMBER_OF_SEEDS_BEFORE_WRITING_TO_DISK = 100"
definition STAGES_TO_SKIP :: "int set" where "STAGES_TO_SKIP = {9, 13}"

subsection \<open>Rooms, floors, seeds\<close>

text \<open>
  Modelled from the spec: the type \<^verbatim>\<open>RoomData\<close> is imported from
  \<^verbatim>\<open>./types/RoomData\<close>, which is not among the sources. The spec's persisted format
  gives its four fields, and \<^verbatim>\<open>recordFloor\<close> fills exactly these.
\<close>

record RoomData =
  shape :: int
  stageID :: int
  variant :: int
  subType :: int

text \<open>
  The host's room descriptor, reduced to what \<^verbatim>\<open>recordFloor\<close> reads: the grid
  index and the optional layout data (\<^verbatim>\<open>undefined\<close> is \<open>None\<close>).
\<close>

record RoomConfig =
  Shape :: int
  StageID :: int
  Variant :: int
  Subtype :: int

record RoomDescriptor =
  SafeGridIndex :: int
  Data :: "RoomConfig option"

type_synonym RoomsMap = "string \<rightharpoonup> RoomData"
type_synonym FloorsMap = "string \<rightharpoonup> RoomsMap"

text \<open>
  \<^verbatim>\<open>floorsMap\<close> is a Lua table that \<^verbatim>\<open>recordFloor\<close> mutates in place and that
  \<^verbatim>\<open>recordAllFloorsToSeedMap\<close> stores into \<^verbatim>\<open>seedsMap\<close> by reference, so the
  tables live in a store, \<open>tables\<close>, and the two variables hold addresses. The
  rooms map of a floor is filled before it is stored and never touched again, and
  \<^verbatim>\<open>seedsMap\<close> is one table for the whole run of the program: both are values.
\<close>

type_synonym table_ref = nat
type_synonym SeedsMap = "string \<rightharpoonup> table_ref"

datatype Mod = Mod string int

datatype hostcall =
    RegisterMod string int
  | AddCallback ModCallbacks
  | ExecuteCommand string
  | DebugString string
  | GoToStage int int
  | AddSeedEffect int
  | SaveData "string \<rightharpoonup> FloorsMap"

text \<open>
  \<open>SaveData d\<close> is the call \<^verbatim>\<open>mod.SaveData(jsonEncode(seedsMap))\<close>: the encoder is
  library code, so the payload is kept as the contents \<open>d\<close> of the table it
  encodes, every stored floors table read through the store at the moment of the
  call. \<open>GoToStage a b\<close> is the library's \<^verbatim>\<open>goToStage(a, b)\<close>.
\<close>

record host =
  getStartSeedString :: string
  getStage :: int
  getStageType :: int
  getRooms :: "RoomDescriptor list"
  onSetSeed :: bool
  Difficulty :: int
  GetChallenge :: int
  GetPlayerType :: int
  HasSeedEffect :: "int \<Rightarrow> bool"

record state =
  modRef :: "Mod option"
  currentStartSeedString :: "string option"
  restart :: bool
  recordingStage :: int
  recordingStageType :: int
  floorsMap :: table_ref
  seedsMap :: SeedsMap
  seedsMapSize :: nat
  tables :: "table_ref \<Rightarrow> FloorsMap"
  nextRef :: table_ref
  out :: "hostcall list"

text \<open>
  The counter \<^verbatim>\<open>seedsMapSize\<close> starts at 0 and is only ever incremented, so it is
  a \<open>nat\<close>; the cursor and everything read from the host are Lua integers, far
  from their 64-bit bounds, and are \<open>int\<close>.

  The module's initialisers. Address 0 holds the table that \<^verbatim>\<open>floorsMap\<close> is
  initialised with.
\<close>

definition initial :: state where
  "initial = \<lparr> modRef = None, currentStartSeedString = None, restart = False,
     recordingStage = STAGE1_1, recordingStageType = STAGETYPE_ORIGINAL,
     floorsMap = 0, seedsMap = Map.empty, seedsMapSize = 0,
     tables = (\<lambda>_. Map.empty), nextRef = 1, out = [] \<rparr>"

text \<open>The SeedRecord in progress and the Dataset, read through the store.\<close>

definition currentFloors :: "state \<Rightarrow> FloorsMap" where
  "currentFloors s = tables s (floorsMap s)"

definition dataset :: "state \<Rightarrow> (string \<rightharpoonup> FloorsMap)" where
  "dataset s = (\<lambda>seed. map_option (tables s) (seedsMap s seed))"

datatype error = Error string

type_synonym 'a result = "(error + 'a) \<times> state"

section \<open>Lua's \<^verbatim>\<open>tostring\<close> on integers\<close>

definition digit :: "nat \<Rightarrow> char" where
  "digit d = ''0123456789'' ! d"

function decimal :: "nat \<Rightarrow> string" where
  "decimal n = (if n < 10 then [digit n] else decimal (n div 10) @ [digit (n mod 10)])"
  by pat_completeness auto
termination
  by (relation "measure id") auto

declare decimal.simps [simp del]

definition tostring :: "int \<Rightarrow> string" where
  "tostring i = (if i < 0 then CHR ''-'' # decimal (nat (- i)) else decimal (nat i))"

section \<open>The module's functions\<close>

subsection \<open>Calls into the host\<close>

definition hostCall :: "hostcall \<Rightarrow> state \<Rightarrow> state" where
  "hostCall c s = s\<lparr>out := out s @ [c]\<rparr>"

definition newLuaTable :: "state \<Rightarrow> table_ref \<times> state" where
  "newLuaTable s =
     (nextRef s, s\<lparr>tables := (tables s)(nextRef s := Map.empty), nextRef := Suc (nextRef s)\<rparr>)"

subsection \<open>\<^verbatim>\<open>main\<close>, \<^verbatim>\<open>postRender\<close>, \<^verbatim>\<open>restartOnNextFrame\<close>\<close>

definition main :: "state \<Rightarrow> state" where
  "main s =
     (let s1 = hostCall (RegisterMod MOD_NAME 1) s;
          s2 = s1\<lparr>modRef := Some (Mod MOD_NAME 1)\<rparr>;
          s3 = hostCall (AddCallback MC_POST_RENDER) s2;
          s4 = hostCall (AddCallback MC_POST_GAME_STARTED) s3
      in hostCall (AddCallback MC_POST_NEW_LEVEL) s4)"

text \<open>
  \<^verbatim>\<open>Isaac.ExecuteCommand\<close> is a call into the host, and the host may run callbacks
  of the module before the call returns (a restart starts the next run). So
  \<^verbatim>\<open>postRender\<close> is translated with this call as a parameter:
  \<open>executeCommand cmd t\<close> is the state of the globals when the call returns,
  \<open>t\<close> being their state when it is made. The assignment to \<^verbatim>\<open>restart\<close> comes
  before the call, as in the source.
\<close>

definition postRenderIn :: "(string \<Rightarrow> state \<Rightarrow> state) \<Rightarrow> state \<Rightarrow> state" where
  "postRenderIn executeCommand s =
     (if restart s then executeCommand ''restart'' (s\<lparr>restart := False\<rparr>)
      else s)"

text \<open>
  The host of the events below notes the command and runs nothing before the
  call returns; what the command brings about arrives as later events.
\<close>

definition postRender :: "state \<Rightarrow> state" where
  "postRender s = postRenderIn (\<lambda>cmd. hostCall (ExecuteCommand cmd)) s"

definition restartOnNextFrame :: "state \<Rightarrow> state" where
  "restartOnNextFrame s = s\<lparr>restart := True\<rparr>"

subsection \<open>\<^verbatim>\<open>validateRun\<close> and \<^verbatim>\<open>postGameStarted\<close>\<close>

definition validateRun :: "bool \<Rightarrow> host \<Rightarrow> state \<Rightarrow> bool result" where
  "validateRun continued h s =
     (if continued then
        (Inl (Error (''The '' @ MOD_NAME @ '' mod will not work when continuing a run.'')), s)
      else if onSetSeed h then
        (Inl (Error (''The '' @ MOD_NAME @ '' mod will not work on set seeds.'')), s)
      else if Difficulty h \<noteq> DIFFICULTY_NORMAL then
        (Inl (Error (''The '' @ MOD_NAME @ '' mod will not work on non-normal difficulties.'')), s)
      else if GetChallenge h \<noteq> CHALLENGE_NULL then
        (Inl (Error (''The '' @ MOD_NAME @ '' mod will not work on challenges.'')), s)
      else if GetPlayerType h \<noteq> PLAYER_ISAAC then
        (Inl (Error (''The '' @ MOD_NAME @ '' mod will not work on characters other than Isaac.'')), s)
      else if \<not> HasSeedEffect h SEED_PREVENT_ALL_CURSES then
        (let s1 = hostCall (AddSeedEffect SEED_PREVENT_ALL_CURSES) s;
             s2 = restartOnNextFrame s1;
             s3 = hostCall (DebugString ''Disabling curses and restarting the run.'') s2
         in (Inr False, s3))
      else (Inr True, s))"

definition postGameStarted :: "bool \<Rightarrow> host \<Rightarrow> state \<Rightarrow> unit result" where
  "postGameStarted continued h s =
     (let s1 = (if VERBOSE
                then hostCall (DebugString (''MC_POST_GAME_STARTED - '' @ getStartSeedString h)) s
                else s)
      in case validateRun continued h s1 of
           (Inl e, s2) \<Rightarrow> (Inl e, s2)
         | (Inr ok, s2) \<Rightarrow>
             if \<not> ok then (Inr (), s2)
             else (let (r, s3) = newLuaTable s2;
                       s4 = s3\<lparr>floorsMap := r\<rparr>
                   in (Inr (), hostCall (GoToStage (recordingStage s4) (recordingStageType s4)) s4)))"

subsection \<open>\<^verbatim>\<open>recordFloor\<close>\<close>

text \<open>
  The loop of \<^verbatim>\<open>recordFloor\<close> over the room descriptors, with the rooms map built
  so far as accumulator.
\<close>

fun recordRooms :: "RoomDescriptor list \<Rightarrow> RoomsMap \<Rightarrow> RoomsMap" where
  "recordRooms [] roomsMap = roomsMap"
| "recordRooms (roomDesc # rest) roomsMap =
     (case Data roomDesc of
        None \<Rightarrow> recordRooms rest roomsMap
      | Some data \<Rightarrow>
          recordRooms rest
            (roomsMap(tostring (SafeGridIndex roomDesc) \<mapsto>
               \<lparr> shape = Shape data, stageID = StageID data,
                 variant = Variant data, subType = Subtype data \<rparr>)))"

definition floorsMapIndex :: "int \<Rightarrow> int \<Rightarrow> string" where
  "floorsMapIndex stage stageType = tostring stage @ ''.'' @ tostring stageType"

definition recordFloor :: "host \<Rightarrow> state \<Rightarrow> state" where
  "recordFloor h s =
     (let roomsMap = recordRooms (getRooms h) Map.empty;
          idx = floorsMapIndex (recordingStage s) (recordingStageType s)
      in s\<lparr>tables := (tables s)(floorsMap s := (tables s (floorsMap s))(idx \<mapsto> roomsMap))\<rparr>)"

subsection \<open>The persistence batcher\<close>

definition writeAllRecordedDataToSaveDatFile :: "state \<Rightarrow> unit result" where
  "writeAllRecordedDataToSaveDatFile s =
     (case modRef s of
        None \<Rightarrow> (Inl (Error ''Mod was not initialized.''), s)
      | Some m \<Rightarrow>
          (let s1 = hostCall (SaveData (dataset s)) s;
               s2 = (if VERBOSE
                     then hostCall (DebugString ''Recorded data to the \"save#.dat\" file.'') s1
                     else s1)
           in (Inr (), s2)))"

definition recordAllFloorsToSeedMap :: "host \<Rightarrow> state \<Rightarrow> unit result" where
  "recordAllFloorsToSeedMap h s =
     (let startSeedString = getStartSeedString h;
          s1 = s\<lparr>seedsMap := (seedsMap s)(startSeedString \<mapsto> floorsMap s)\<rparr>;
          s2 = s1\<lparr>seedsMapSize := seedsMapSize s1 + 1\<rparr>;
          s3 = (if VERBOSE
                then hostCall (DebugString (''Total seeds: '' @ tostring (int (seedsMapSize s2))))
                       (hostCall (DebugString (''Recorded seed: '' @ startSeedString)) s2)
                else s2)
      in if seedsMapSize s3 mod NUMBER_OF_SEEDS_BEFORE_WRITING_TO_DISK = 0
         then writeAllRecordedDataToSaveDatFile s3
         else (Inr (), s3))"

subsection \<open>The traversal sequencer\<close>

definition getMaxStageType :: "int \<Rightarrow> int" where
  "getMaxStageType stage =
     (if stage = 7 \<or> stage = 8 then STAGETYPE_REPENTANCE
      else if stage = 9 then STAGETYPE_ORIGINAL
      else if stage = 10 \<or> stage = 11 then STAGETYPE_WOTL
      else if stage = 12 then STAGETYPE_ORIGINAL
      else if stage = 13 then STAGETYPE_WOTL
      else STAGETYPE_REPENTANCE_B)"

definition incrementStage :: "host \<Rightarrow> state \<Rightarrow> bool result" where
  "incrementStage h s =
     (let s1 = s\<lparr>recordingStage := recordingStage s + 1\<rparr>;
          s2 = (if recordingStage s1 \<in> STAGES_TO_SKIP
                then s1\<lparr>recordingStage := recordingStage s1 + 1\<rparr> else s1)
      in if recordingStage s2 > FINAL_STAGE then
           (let s3 = s2\<lparr>recordingStage := STAGE1_1\<rparr>
            in case recordAllFloorsToSeedMap h s3 of
                 (Inl e, s4) \<Rightarrow> (Inl e, s4)
               | (Inr _, s4) \<Rightarrow> (Inr True, restartOnNextFrame s4))
         else (Inr False, s2))"

definition incrementStageType :: "host \<Rightarrow> state \<Rightarrow> bool result" where
  "incrementStageType h s =
     (let s1 = s\<lparr>recordingStageType := recordingStageType s + 1\<rparr>;
          s2 = (if recordingStageType s1 = STAGETYPE_GREEDMODE
                then s1\<lparr>recordingStageType := recordingStageType s1 + 1\<rparr> else s1)
      in if recordingStageType s2 > getMaxStageType (recordingStage s2)
         then incrementStage h (s2\<lparr>recordingStageType := STAGETYPE_ORIGINAL\<rparr>)
         else (Inr False, s2))"

subsection \<open>\<^verbatim>\<open>moveToNextFloor\<close> and \<^verbatim>\<open>postNewLevel\<close>\<close>

definition moveToNextFloor :: "host \<Rightarrow> state \<Rightarrow> unit result" where
  "moveToNextFloor h s =
     (case incrementStageType h s of
        (Inl e, s1) \<Rightarrow> (Inl e, s1)
      | (Inr True, s1) \<Rightarrow> (Inr (), s1)
      | (Inr False, s1) \<Rightarrow>
          (let s2 = (if VERBOSE
                     then hostCall (DebugString (''Going to stage: ''
                            @ tostring (recordingStage s1) @ ''.''
                            @ tostring (recordingStageType s1))) s1
                     else s1)
           in (Inr (), hostCall (GoToStage (recordingStage s2) (recordingStageType s2)) s2)))"

definition postNewLevel :: "host \<Rightarrow> state \<Rightarrow> unit result" where
  "postNewLevel h s =
     (let s1 = (if VERBOSE
                then hostCall (DebugString (''MC_POST_NEW_LEVEL - ''
                       @ tostring (getStage h) @ ''.'' @ tostring (getStageType h))) s
                else s);
          startSeedString = getStartSeedString h
      in if Some startSeedString \<noteq> currentStartSeedString s1
         then (Inr (), s1\<lparr>currentStartSeedString := Some startSeedString\<rparr>)
         else moveToNextFloor h (recordFloor h s1))"

section \<open>The host's side: events, and the notions the properties are stated in\<close>

text \<open>
  The host delivers its three events one at a time. \<open>run\<close> continues after a
  callback has raised, from the globals as the raise left them; a host that
  stops at the first error delivers a shorter list.
\<close>

datatype event = PostRender | PostGameStarted bool host | PostNewLevel host

fun handle :: "event \<Rightarrow> state \<Rightarrow> unit result" where
  "handle PostRender s = (Inr (), postRender s)"
| "handle (PostGameStarted continued h) s = postGameStarted continued h s"
| "handle (PostNewLevel h) s = postNewLevel h s"

fun run :: "event list \<Rightarrow> state \<Rightarrow> state" where
  "run [] s = s"
| "run (e # es) s = run es (snd (handle e s))"

text \<open>
  A host that starts the next run before \<^verbatim>\<open>Isaac.ExecuteCommand\<close> returns: it
  notes the command and runs the run-start callback, with what it then reports.
\<close>

definition executeCommandStartingRun :: "bool \<Rightarrow> host \<Rightarrow> string \<Rightarrow> state \<Rightarrow> state" where
  "executeCommandStartingRun continued h cmd s =
     snd (postGameStarted continued h (hostCall (ExecuteCommand cmd) s))"

text \<open>The host calls made between two states of one execution.\<close>

definition newCalls :: "state \<Rightarrow> state \<Rightarrow> hostcall list" where
  "newCalls s s' = drop (length (out s)) (out s')"

definition cursor :: "state \<Rightarrow> int \<times> int" where
  "cursor s = (recordingStage s, recordingStageType s)"

definition validCursor :: "int \<times> int \<Rightarrow> bool" where
  "validCursor c =
     (STAGE1_1 \<le> fst c \<and> fst c \<le> FINAL_STAGE \<and> fst c \<notin> STAGES_TO_SKIP \<and>
      STAGETYPE_ORIGINAL \<le> snd c \<and> snd c \<le> getMaxStageType (fst c) \<and>
      snd c \<noteq> STAGETYPE_GREEDMODE)"

text \<open>A sequence of advance operations, whatever each of them returns.\<close>

fun advances :: "host list \<Rightarrow> state \<Rightarrow> state" where
  "advances [] s = s"
| "advances (h # hs) s = advances hs (snd (incrementStageType h s))"

text \<open>
  The traversal of one seed: \<^verbatim>\<open>incrementStageType\<close> is applied until it returns
  true (or raises), and the cursor is noted before each application. The loop
  is the host's, not the module's, so it runs on fuel: \<open>None\<close> says that the
  fuel ran out before \<^verbatim>\<open>incrementStageType\<close> returned true.
\<close>

fun traverse :: "nat \<Rightarrow> host \<Rightarrow> state \<Rightarrow> (error option \<times> (int \<times> int) list \<times> state) option" where
  "traverse 0 h s = None"
| "traverse (Suc n) h s =
     (case incrementStageType h s of
        (Inl e, s') \<Rightarrow> Some (Some e, [cursor s], s')
      | (Inr True, s') \<Rightarrow> Some (None, [cursor s], s')
      | (Inr False, s') \<Rightarrow>
          (case traverse n h s' of
             None \<Rightarrow> None
           | Some (r, cs, t) \<Rightarrow> Some (r, cursor s # cs, t)))"

text \<open>
  The order the spec describes: the stages from the first to the final one that
  are not excluded, in increasing order, each with its variants from the base
  one to its ceiling, the Greed-mode ordinal left out.
\<close>

definition stagesToRecord :: "int list" where
  "stagesToRecord = filter (\<lambda>stage. stage \<notin> STAGES_TO_SKIP) [STAGE1_1 ..FINAL_STAGE]"

definition stageVariants :: "int \<Rightarrow> int list" where
  "stageVariants stage =
     filter (\<lambda>t. t \<noteq> STAGETYPE_GREEDMODE) [STAGETYPE_ORIGINAL ..getMaxStageType stage]"

definition fullTraversal :: "(int \<times> int) list" where
  "fullTraversal = concat (map (\<lambda>stage. map (Pair stage) (stageVariants stage)) stagesToRecord)"

text \<open>
  The successor of a cursor and the test for the end of a seed, read off
  \<^verbatim>\<open>incrementStageType\<close> and \<^verbatim>\<open>incrementStage\<close> with the globals other than the
  cursor left out. \<open>incrementStageType_eq\<close> below ties them to the code.
\<close>

definition skipStage :: "int \<Rightarrow> int" where
  "skipStage stage = (if stage + 1 \<in> STAGES_TO_SKIP then stage + 1 + 1 else stage + 1)"

definition skipStageType :: "int \<Rightarrow> int" where
  "skipStageType t = (if t + 1 = STAGETYPE_GREEDMODE then t + 1 + 1 else t + 1)"

definition seedDone :: "int \<times> int \<Rightarrow> bool" where
  "seedDone c = (skipStageType (snd c) > getMaxStageType (fst c) \<and> skipStage (fst c) > FINAL_STAGE)"

definition stepCursor :: "int \<times> int \<Rightarrow> int \<times> int" where
  "stepCursor c =
     (if skipStageType (snd c) > getMaxStageType (fst c)
      then (if skipStage (fst c) > FINAL_STAGE then STAGE1_1 else skipStage (fst c),
            STAGETYPE_ORIGINAL)
      else (fst c, skipStageType (snd c)))"

text \<open>
  The invariant behind the validity of every emitted pair: the cursor is valid,
  and so is every pair passed to \<^verbatim>\<open>goToStage\<close> after the first \<open>n\<close> host calls.
\<close>

definition emitsValid :: "nat \<Rightarrow> state \<Rightarrow> bool" where
  "emitsValid n s =
     (validCursor (cursor s) \<and> n \<le> length (out s) \<and>
      (\<forall>a b. GoToStage a b \<in> set (drop n (out s)) \<longrightarrow> validCursor (a, b)))"

text \<open>
  What a seed's floors table holds after the floors at the cursors \<open>cs\<close> have
  been recorded from the host snapshots \<open>hs\<close>, in this order, on top of \<open>m\<close>.
\<close>

definition cursorKey :: "int \<times> int \<Rightarrow> string" where
  "cursorKey c = floorsMapIndex (fst c) (snd c)"

fun floorsRecorded :: "(int \<times> int) list \<Rightarrow> host list \<Rightarrow> FloorsMap \<Rightarrow> FloorsMap" where
  "floorsRecorded (c # cs) (h # hs) m =
     floorsRecorded cs hs (m(cursorKey c \<mapsto> recordRooms (getRooms h) Map.empty))"
| "floorsRecorded _ _ m = m"

text \<open>
  The five structural tests of \<^verbatim>\<open>validateRun\<close>, in the spec's words: continuing a
  prior run, a set seed, a difficulty other than normal, an active challenge, a
  character other than Isaac.
\<close>

definition ineligible :: "bool \<Rightarrow> host \<Rightarrow> bool" where
  "ineligible continued h =
     (continued \<or> onSetSeed h \<or> Difficulty h \<noteq> DIFFICULTY_NORMAL \<or>
      GetChallenge h \<noteq> CHALLENGE_NULL \<or> GetPlayerType h \<noteq> PLAYER_ISAAC)"

text \<open>
  The extractor in the spec's words: a descriptor without layout data is
  skipped, any other gives the entry from its position key to the snapshot of
  its shape, stage id, variant and subtype.
\<close>

definition snapshot :: "RoomConfig \<Rightarrow> RoomData" where
  "snapshot data = \<lparr> shape = Shape data, stageID = StageID data,
                     variant = Variant data, subType = Subtype data \<rparr>"

fun roomEntries :: "RoomDescriptor list \<Rightarrow> (string \<times> RoomData) list" where
  "roomEntries [] = []"
| "roomEntries (d # ds) =
     (case Data d of
        None \<Rightarrow> roomEntries ds
      | Some data \<Rightarrow> (tostring (SafeGridIndex d), snapshot data) # roomEntries ds)"

subsection \<open>Concrete hosts and states for the examples\<close>

definition roomAt :: "int \<Rightarrow> int \<Rightarrow> RoomDescriptor" where
  "roomAt i sh = \<lparr> SafeGridIndex = i,
     Data = Some \<lparr> Shape = sh, StageID = 1, Variant = 0, Subtype = 0 \<rparr> \<rparr>"

definition roomWithoutData :: "int \<Rightarrow> RoomDescriptor" where
  "roomWithoutData i = \<lparr> SafeGridIndex = i, Data = None \<rparr>"

definition hostA :: host where
  "hostA = \<lparr> getStartSeedString = ''ABCD 1234'', getStage = 1, getStageType = 0,
     getRooms = [roomAt 84 1, roomAt 85 1, roomWithoutData 86],
     onSetSeed = False, Difficulty = DIFFICULTY_NORMAL, GetChallenge = CHALLENGE_NULL,
     GetPlayerType = PLAYER_ISAAC, HasSeedEffect = (\<lambda>e. e = SEED_PREVENT_ALL_CURSES) \<rparr>"

definition hostB :: host where
  "hostB = hostA\<lparr> getStartSeedString := ''WXYZ 5678'', getRooms := [roomAt 84 2] \<rparr>"

text \<open>
  The state after the program has started, the first level of a run with seed
  \<^verbatim>\<open>ABCD 1234\<close> has been reached and the run has been accepted.
\<close>

definition startedState :: state where
  "startedState = run [PostNewLevel hostA, PostGameStarted False hostA] (main initial)"

definition hostNoCurses :: host where
  "hostNoCurses = hostA\<lparr> HasSeedEffect := (\<lambda>e. False) \<rparr>"

definition hostHard :: host where
  "hostHard = hostA\<lparr> Difficulty := 1 \<rparr>"

text \<open>One floor of the seed recorded: the cursor is at the second pair.\<close>

definition midSeedState :: state where
  "midSeedState = run [PostNewLevel hostA] startedState"

text \<open>
  A state at the last floor of a seed, \<open>n\<close> seeds having been completed before.
\<close>

definition stateAtLastFloor :: "nat \<Rightarrow> state" where
  "stateAtLastFloor n = startedState\<lparr>recordingStage := 12, seedsMapSize := n\<rparr>"

text \<open>
  The seed \<^verbatim>\<open>ABCD 1234\<close> has been completed once, its record being the table at
  address 2; a later run has the same seed, was accepted (the table in progress
  is a new one, at address 3) and has arrived at the last floor.
\<close>

definition refoldState :: state where
  "refoldState = startedState\<lparr>recordingStage := 12, floorsMap := 3,
     seedsMap := [''ABCD 1234'' \<mapsto> 2], seedsMapSize := 1,
     tables := (\<lambda>_. Map.empty)(2 := [''1.0'' \<mapsto> Map.empty]), nextRef := 4\<rparr>"

text \<open>
  Five room descriptors, one without layout data, two at the same position.
\<close>

definition dupRooms :: "RoomDescriptor list" where
  "dupRooms = [roomAt 84 1, roomAt 85 1, roomAt 84 2, roomAt 86 1, roomWithoutData 87]"

definition hostDup :: host where
  "hostDup = hostA\<lparr> getRooms := dupRooms \<rparr>"

text \<open>Five room descriptors at five positions, one without layout data.\<close>

definition fiveRooms :: "RoomDescriptor list" where
  "fiveRooms = [roomAt 84 1, roomAt 85 1, roomAt 71 2, roomAt 86 1, roomWithoutData (- 1)]"

section \<open>Decimal numerals are unambiguous\<close>

lemma decimal_small: "n < 10 \<Longrightarrow> decimal n = [digit n]"
  by (simp add: decimal.simps)

lemma decimal_big: "\<not> n < 10 \<Longrightarrow> decimal n = decimal (n div 10) @ [digit (n mod 10)]"
  by (subst decimal.simps) simp

lemma digit_cases: "d < 10 \<Longrightarrow> d = 0 \<or> d = 1 \<or> d = 2 \<or> d = 3 \<or> d = 4 \<or> d = 5 \<or> d = 6 \<or> d = 7 \<or> d = 8 \<or> d = (9::nat)"
  by arith

lemma digit_inj: "a < 10 \<Longrightarrow> b < 10 \<Longrightarrow> digit a = digit b \<Longrightarrow> a = b"
  using digit_cases[of a] digit_cases[of b]
  by (auto simp: digit_def)

lemma digit_not_minus: "d < 10 \<Longrightarrow> digit d \<noteq> CHR ''-''"
  using digit_cases[of d] by (auto simp: digit_def)

lemma decimal_not_Nil: "decimal n \<noteq> []"
  by (subst decimal.simps) simp

lemma decimal_length_big: "\<not> n < 10 \<Longrightarrow> 2 \<le> length (decimal n)"
  using decimal_not_Nil[of "n div 10"]
  by (simp add: decimal_big Suc_le_eq)

lemma decimal_inj: "decimal n = decimal m \<Longrightarrow> n = m"
proof (induction n arbitrary: m rule: decimal.induct)
  case (1 n)
  show ?case
  proof (cases "n < 10")
    case small: True
    show ?thesis
    proof (cases "m < 10")
      case True
      with small 1(2) show ?thesis by (simp add: decimal_small digit_inj)
    next
      case False
      from 1(2) small have "decimal m = [digit n]"
        by (simp add: decimal_small)
      then have "length (decimal m) = 1" by simp
      with decimal_length_big[OF False] show ?thesis by simp
    qed
  next
    case big: False
    show ?thesis
    proof (cases "m < 10")
      case True
      from 1(2) True have "length (decimal n) = 1"
        by (simp add: decimal_small)
      with decimal_length_big[OF big] show ?thesis by simp
    next
      case False
      from 1(2) big False
      have e: "decimal (n div 10) = decimal (m div 10)" and d: "digit (n mod 10) = digit (m mod 10)"
        by (simp_all add: decimal_big)
      from 1(1)[OF big e] have "n div 10 = m div 10" .
      moreover from d have "n mod 10 = m mod 10" by (simp add: digit_inj)
      ultimately show ?thesis by (metis div_mult_mod_eq)
    qed
  qed
qed

lemma decimal_hd_not_minus: "hd (decimal n) \<noteq> CHR ''-''"
proof (induction n rule: decimal.induct)
  case (1 n)
  show ?case
  proof (cases "n < 10")
    case True
    then show ?thesis by (simp add: decimal_small digit_not_minus)
  next
    case False
    with 1 decimal_not_Nil[of "n div 10"] show ?thesis by (simp add: decimal_big)
  qed
qed

lemma tostring_inj: "tostring i = tostring j \<Longrightarrow> i = j"
proof -
  assume e: "tostring i = tostring j"
  have neq: "\<And>a b. CHR ''-'' # decimal a \<noteq> decimal b"
    using decimal_hd_not_minus decimal_not_Nil by (metis list.sel(1))
  show ?thesis
  proof (cases "i < 0")
    case ni: True
    show ?thesis
    proof (cases "j < 0")
      case True
      with ni e have "nat (- i) = nat (- j)" by (simp add: tostring_def decimal_inj)
      with ni True show ?thesis by simp
    next
      case False
      with ni e neq show ?thesis by (simp add: tostring_def)
    qed
  next
    case pi: False
    show ?thesis
    proof (cases "j < 0")
      case True
      with pi e neq[of "nat (- j)" "nat i"] show ?thesis by (simp add: tostring_def)
    next
      case False
      with pi e have "nat i = nat j" by (simp add: tostring_def decimal_inj)
      with pi False show ?thesis by simp
    qed
  qed
qed

section \<open>The sequencer, step by step\<close>

lemmas enum_defs = STAGE1_1_def STAGE8_def STAGETYPE_ORIGINAL_def STAGETYPE_WOTL_def
  STAGETYPE_GREEDMODE_def STAGETYPE_REPENTANCE_def STAGETYPE_REPENTANCE_B_def
  FINAL_STAGE_def STAGES_TO_SKIP_def

lemma fullTraversal_eq: "fullTraversal =
  [(1,0),(1,1),(1,2),(1,4),(1,5), (2,0),(2,1),(2,2),(2,4),(2,5),
   (3,0),(3,1),(3,2),(3,4),(3,5), (4,0),(4,1),(4,2),(4,4),(4,5),
   (5,0),(5,1),(5,2),(5,4),(5,5), (6,0),(6,1),(6,2),(6,4),(6,5),
   (7,0),(7,1),(7,2),(7,4), (8,0),(8,1),(8,2),(8,4),
   (10,0),(10,1), (11,0),(11,1), (12,0)]"
  by (simp add: fullTraversal_def stagesToRecord_def stageVariants_def getMaxStageType_def enum_defs upto_rec1)

lemma length_fullTraversal: "length fullTraversal = 43"
  by (simp add: fullTraversal_eq)

lemma incrementStageType_eq:
  "incrementStageType h s =
     (if seedDone (cursor s)
      then (case recordAllFloorsToSeedMap h
                   (s\<lparr>recordingStageType := STAGETYPE_ORIGINAL, recordingStage := STAGE1_1\<rparr>) of
              (Inl e, s4) \<Rightarrow> (Inl e, s4)
            | (Inr _, s4) \<Rightarrow> (Inr True, restartOnNextFrame s4))
      else (Inr False, s\<lparr>recordingStageType := snd (stepCursor (cursor s)),
                         recordingStage := fst (stepCursor (cursor s))\<rparr>))"
  by (simp add: incrementStageType_def incrementStage_def seedDone_def stepCursor_def cursor_def
       skipStage_def skipStageType_def Let_def)

lemma recordAllFloorsToSeedMap_eq:
  "recordAllFloorsToSeedMap h s =
     (let s3 = s\<lparr>seedsMap := (seedsMap s)(getStartSeedString h \<mapsto> floorsMap s),
                  seedsMapSize := Suc (seedsMapSize s),
                  out := out s @ [DebugString (''Recorded seed: '' @ getStartSeedString h),
                                  DebugString (''Total seeds: '' @ tostring (int (Suc (seedsMapSize s))))]\<rparr>
      in if Suc (seedsMapSize s) mod 100 = 0
         then (case modRef s of
                 None \<Rightarrow> (Inl (Error ''Mod was not initialized.''), s3)
               | Some m \<Rightarrow>
                   (Inr (), s3\<lparr>out := out s3 @ [SaveData (dataset s3),
                        DebugString ''Recorded data to the \"save#.dat\" file.'']\<rparr>))
         else (Inr (), s3))"
  by (simp add: recordAllFloorsToSeedMap_def writeAllRecordedDataToSaveDatFile_def hostCall_def
        VERBOSE_def NUMBER_OF_SEEDS_BEFORE_WRITING_TO_DISK_def Let_def split: option.split)

lemma cursor_recordAll [simp]: "cursor (snd (recordAllFloorsToSeedMap h s)) = cursor s"
  by (simp add: recordAllFloorsToSeedMap_eq cursor_def Let_def split: option.split)

lemma cursor_incrementStageType: "cursor (snd (incrementStageType h s)) = stepCursor (cursor s)"
proof (cases "seedDone (cursor s)")
  case True
  have "cursor (snd (incrementStageType h s)) =
        cursor (s\<lparr>recordingStageType := STAGETYPE_ORIGINAL, recordingStage := STAGE1_1\<rparr>)"
    using True cursor_recordAll[of h "s\<lparr>recordingStageType := STAGETYPE_ORIGINAL, recordingStage := STAGE1_1\<rparr>"]
    by (auto simp: incrementStageType_eq restartOnNextFrame_def cursor_def split: prod.splits sum.splits)
  also have "\<dots> = stepCursor (cursor s)"
    using True by (simp add: cursor_def stepCursor_def seedDone_def)
  finally show ?thesis .
next
  case False
  then show ?thesis by (simp add: incrementStageType_eq cursor_def)
qed

lemma validCursor_stepCursor: "validCursor c \<Longrightarrow> validCursor (stepCursor c)"
  by (cases c) (auto simp: validCursor_def stepCursor_def skipStage_def skipStageType_def
        getMaxStageType_def enum_defs split: if_splits)

lemma cursor_advances: "cursor (advances hs s) = (stepCursor ^^ length hs) (cursor s)"
  by (induction hs arbitrary: s) (simp_all add: cursor_incrementStageType funpow_swap1)

lemma validCursor_funpow: "validCursor c \<Longrightarrow> validCursor ((stepCursor ^^ n) c)"
  by (induction n) (simp_all add: validCursor_stepCursor)

lemma validCursor_first: "validCursor (STAGE1_1, STAGETYPE_ORIGINAL)"
  by (simp add: validCursor_def getMaxStageType_def enum_defs)

lemma step_fullTraversal: "map stepCursor (butlast fullTraversal) = tl fullTraversal"
  by (simp add: fullTraversal_eq stepCursor_def skipStage_def skipStageType_def
        getMaxStageType_def enum_defs)

lemma notDone_fullTraversal: "list_all (\<lambda>c. \<not> seedDone c) (butlast fullTraversal)"
  by (simp add: fullTraversal_eq seedDone_def skipStage_def skipStageType_def
        getMaxStageType_def enum_defs)

lemma done_last: "seedDone (12, 0)" "stepCursor (12, 0) = (STAGE1_1, STAGETYPE_ORIGINAL)"
  by (simp_all add: seedDone_def stepCursor_def skipStage_def skipStageType_def
        getMaxStageType_def enum_defs)

lemma nth_step: "k < 42 \<Longrightarrow> stepCursor (fullTraversal ! k) = fullTraversal ! Suc k"
proof -
  assume k: "k < 42"
  have "map stepCursor (butlast fullTraversal) ! k = tl fullTraversal ! k"
    by (simp only: step_fullTraversal)
  with k show ?thesis
    by (simp add: nth_butlast nth_tl length_fullTraversal)
qed

lemma nth_notDone: "k < 42 \<Longrightarrow> \<not> seedDone (fullTraversal ! k)"
  using notDone_fullTraversal
  by (simp add: list_all_length nth_butlast length_fullTraversal)

lemma nth_last: "fullTraversal ! 42 = (12, 0)" "fullTraversal ! 0 = (STAGE1_1, STAGETYPE_ORIGINAL)"
  by (simp_all add: fullTraversal_eq enum_defs)

lemma funpow_fullTraversal: "k \<le> 42 \<Longrightarrow> (stepCursor ^^ k) (STAGE1_1, STAGETYPE_ORIGINAL) = fullTraversal ! k"
  by (induction k) (simp_all add: nth_last nth_step)

lemma postRender_eq:
  "postRender s =
     (if restart s then hostCall (ExecuteCommand ''restart'') (s\<lparr>restart := False\<rparr>)
      else s)"
  by (simp add: postRender_def postRenderIn_def)

lemmas callback_defs = postRender_eq postGameStarted_def validateRun_def postNewLevel_def
  moveToNextFloor_def recordFloor_def incrementStageType_def incrementStage_def
  recordAllFloorsToSeedMap_def writeAllRecordedDataToSaveDatFile_def restartOnNextFrame_def
  hostCall_def newLuaTable_def getMaxStageType_def floorsMapIndex_def
  VERBOSE_def NUMBER_OF_SEEDS_BEFORE_WRITING_TO_DISK_def MOD_NAME_def
  DIFFICULTY_NORMAL_def CHALLENGE_NULL_def PLAYER_ISAAC_def SEED_PREVENT_ALL_CURSES_def

lemmas tostring_eval = tostring_def decimal_small decimal_big digit_def

section \<open>The callbacks, case by case\<close>

lemma postNewLevel_other:
  "Some (getStartSeedString h) \<noteq> currentStartSeedString s \<Longrightarrow>
   postNewLevel h s =
     (Inr (), s\<lparr>currentStartSeedString := Some (getStartSeedString h),
                 out := out s @ [DebugString (''MC_POST_NEW_LEVEL - ''
                          @ tostring (getStage h) @ ''.'' @ tostring (getStageType h))]\<rparr>)"
  by (simp add: postNewLevel_def hostCall_def VERBOSE_def Let_def)

lemma postNewLevel_next:
  "Some (getStartSeedString h) = currentStartSeedString s \<Longrightarrow> \<not> seedDone (cursor s) \<Longrightarrow>
   postNewLevel h s =
     (Inr (), s\<lparr>recordingStage := fst (stepCursor (cursor s)),
                 recordingStageType := snd (stepCursor (cursor s)),
                 tables := (tables s)(floorsMap s := (tables s (floorsMap s))
                             (floorsMapIndex (recordingStage s) (recordingStageType s)
                                \<mapsto> recordRooms (getRooms h) Map.empty)),
                 out := out s @
                   [DebugString (''MC_POST_NEW_LEVEL - ''
                      @ tostring (getStage h) @ ''.'' @ tostring (getStageType h)),
                    DebugString (''Going to stage: ''
                      @ tostring (fst (stepCursor (cursor s))) @ ''.''
                      @ tostring (snd (stepCursor (cursor s)))),
                    GoToStage (fst (stepCursor (cursor s))) (snd (stepCursor (cursor s)))]\<rparr>)"
  by (simp add: postNewLevel_def moveToNextFloor_def recordFloor_def incrementStageType_eq
        hostCall_def VERBOSE_def Let_def cursor_def)

lemma postNewLevel_done:
  "Some (getStartSeedString h) = currentStartSeedString s \<Longrightarrow> seedDone (cursor s) \<Longrightarrow>
   postNewLevel h s =
     (let s3 = s\<lparr>recordingStage := STAGE1_1, recordingStageType := STAGETYPE_ORIGINAL,
                  seedsMap := (seedsMap s)(getStartSeedString h \<mapsto> floorsMap s),
                  seedsMapSize := Suc (seedsMapSize s),
                  tables := (tables s)(floorsMap s := (tables s (floorsMap s))
                             (floorsMapIndex (recordingStage s) (recordingStageType s)
                                \<mapsto> recordRooms (getRooms h) Map.empty)),
                  out := out s @
                    [DebugString (''MC_POST_NEW_LEVEL - ''
                       @ tostring (getStage h) @ ''.'' @ tostring (getStageType h)),
                     DebugString (''Recorded seed: '' @ getStartSeedString h),
                     DebugString (''Total seeds: '' @ tostring (int (Suc (seedsMapSize s))))]\<rparr>
      in if Suc (seedsMapSize s) mod 100 = 0
         then (case modRef s of
                 None \<Rightarrow> (Inl (Error ''Mod was not initialized.''), s3)
               | Some m \<Rightarrow>
                   (Inr (), s3\<lparr>restart := True,
                       out := out s3 @ [SaveData (dataset s3),
                         DebugString ''Recorded data to the \"save#.dat\" file.'']\<rparr>))
         else (Inr (), s3\<lparr>restart := True\<rparr>))"
  by (simp add: postNewLevel_def moveToNextFloor_def recordFloor_def incrementStageType_eq
        recordAllFloorsToSeedMap_eq restartOnNextFrame_def
        hostCall_def VERBOSE_def Let_def cursor_def dataset_def split: option.split)

lemma emitsValid_postRender: "emitsValid n s \<Longrightarrow> emitsValid n (postRender s)"
  by (auto simp: emitsValid_def postRender_eq hostCall_def cursor_def)

lemma emitsValid_postGameStarted: "emitsValid n s \<Longrightarrow> emitsValid n (snd (postGameStarted c h s))"
  by (auto simp: emitsValid_def postGameStarted_def validateRun_def hostCall_def
        restartOnNextFrame_def newLuaTable_def VERBOSE_def Let_def cursor_def)

lemma emitsValid_postNewLevel: "emitsValid n s \<Longrightarrow> emitsValid n (snd (postNewLevel h s))"
proof -
  assume I: "emitsValid n s"
  then have v: "validCursor (stepCursor (cursor s))"
    by (simp add: emitsValid_def validCursor_stepCursor)
  consider (other) "Some (getStartSeedString h) \<noteq> currentStartSeedString s"
    | (nxt) "Some (getStartSeedString h) = currentStartSeedString s" "\<not> seedDone (cursor s)"
    | (fin) "Some (getStartSeedString h) = currentStartSeedString s" "seedDone (cursor s)"
    by blast
  then show ?thesis
  proof cases
    case other
    with I show ?thesis by (auto simp: postNewLevel_other emitsValid_def cursor_def)
  next
    case nxt
    with I v show ?thesis by (auto simp: postNewLevel_next emitsValid_def cursor_def)
  next
    case fin
    with I validCursor_first show ?thesis
      by (auto simp: postNewLevel_done emitsValid_def cursor_def Let_def split: option.split)
  qed
qed

lemma emitsValid_handle: "emitsValid n s \<Longrightarrow> emitsValid n (snd (handle e s))"
  by (cases e) (simp_all add: emitsValid_postRender emitsValid_postGameStarted emitsValid_postNewLevel)

lemma emitsValid_run: "emitsValid n s \<Longrightarrow> emitsValid n (run evs s)"
  by (induction evs arbitrary: s) (simp_all add: emitsValid_handle)

lemma emitsValid_start: "validCursor (cursor s) \<Longrightarrow> emitsValid (length (out s)) s"
  by (simp add: emitsValid_def)

text \<open>
  C2. Whatever sequence of advance operations is applied to a state whose
  cursor is the first stage with the base variant, the cursor is a valid pair
  afterwards: its stage lies between the first and the final stage and is not
  an excluded one, its stage type lies between the base variant and the
  ceiling of the stage, and is not the Greed-mode ordinal. The same holds after
  any sequence of host events, and every pair that the callbacks pass to
  \<^verbatim>\<open>goToStage\<close> on the way is valid.
\<close>

theorem cursor_always_valid:
  assumes "cursor s = (STAGE1_1, STAGETYPE_ORIGINAL)"
  shows "validCursor (cursor (advances hs s)) \<and>
         validCursor (cursor (run evs s)) \<and>
         (\<forall>a b. GoToStage a b \<in> set (newCalls s (run evs s)) \<longrightarrow> validCursor (a, b))"
proof -
  from assms have v: "validCursor (cursor s)"
    by (simp add: validCursor_first)
  have "validCursor (cursor (advances hs s))"
    using assms by (simp add: cursor_advances validCursor_funpow validCursor_first)
  moreover have "emitsValid (length (out s)) (run evs s)"
    using v by (simp add: emitsValid_run emitsValid_start)
  ultimately show ?thesis
    by (simp add: emitsValid_def newCalls_def)
qed

theorem cursor_always_valid_witness:
  "cursor initial = (STAGE1_1, STAGETYPE_ORIGINAL) \<and>
   validCursor (cursor (advances [hostA, hostB, hostA] initial)) \<and>
   validCursor (cursor (run [PostNewLevel hostA, PostGameStarted False hostA, PostNewLevel hostA] initial)) \<and>
   GoToStage 1 1 \<in> set (newCalls initial
        (run [PostNewLevel hostA, PostGameStarted False hostA, PostNewLevel hostA] initial)) \<and>
   validCursor (1, 1)"
proof -
  have h: "cursor initial = (STAGE1_1, STAGETYPE_ORIGINAL)"
    by (simp add: cursor_def initial_def)
  have m: "GoToStage 1 1 \<in> set (newCalls initial
        (run [PostNewLevel hostA, PostGameStarted False hostA, PostNewLevel hostA] initial))"
    by (simp add: newCalls_def callback_defs enum_defs initial_def hostA_def Let_def)
  show ?thesis
    using h m cursor_always_valid [OF h, of "[hostA, hostB, hostA]"
      "[PostNewLevel hostA, PostGameStarted False hostA, PostNewLevel hostA]"]
    by blast
qed

lemma cursor_advances_first:
  "cursor s = (STAGE1_1, STAGETYPE_ORIGINAL) \<Longrightarrow> length hs \<le> 42 \<Longrightarrow>
   cursor (advances hs s) = fullTraversal ! length hs"
  by (simp add: cursor_advances funpow_fullTraversal)

lemma cursor_advances_wrap:
  "cursor s = (STAGE1_1, STAGETYPE_ORIGINAL) \<Longrightarrow> length hs = 43 \<Longrightarrow>
   cursor (advances hs s) = (STAGE1_1, STAGETYPE_ORIGINAL)"
proof -
  assume a: "cursor s = (STAGE1_1, STAGETYPE_ORIGINAL)" and l: "length hs = 43"
  have "(stepCursor ^^ 43) (STAGE1_1, STAGETYPE_ORIGINAL)
        = stepCursor ((stepCursor ^^ 42) (STAGE1_1, STAGETYPE_ORIGINAL))"
    by (simp add: numeral_eq_Suc)
  also have "\<dots> = (STAGE1_1, STAGETYPE_ORIGINAL)"
    by (simp add: funpow_fullTraversal nth_last done_last)
  finally show ?thesis using a l by (simp add: cursor_advances)
qed

text \<open>
  C8. In a traversal that starts at the first stage with the base variant, the
  stage type of a cursor on stage 7 or 8 never exceeds
  \<^verbatim>\<open>STAGETYPE_REPENTANCE\<close>, and that ceiling is reached on both stages (after
  33 and after 37 advances). On a stage whose ceiling is the base variant, the
  cursor only ever has the base variant; stage 12 is reached after 42
  advances, and the next advance leaves it for the first stage.
\<close>

theorem variant_ceilings_reached:
  assumes "cursor s = (STAGE1_1, STAGETYPE_ORIGINAL)"
  shows "(fst (cursor (advances hs s)) \<in> {7, 8} \<longrightarrow>
            snd (cursor (advances hs s)) \<le> STAGETYPE_REPENTANCE) \<and>
         (length hs = 33 \<longrightarrow> cursor (advances hs s) = (7, STAGETYPE_REPENTANCE)) \<and>
         (length hs = 37 \<longrightarrow> cursor (advances hs s) = (8, STAGETYPE_REPENTANCE)) \<and>
         (getMaxStageType (fst (cursor (advances hs s))) = STAGETYPE_ORIGINAL \<longrightarrow>
            snd (cursor (advances hs s)) = STAGETYPE_ORIGINAL) \<and>
         (length hs = 42 \<longrightarrow> cursor (advances hs s) = (12, STAGETYPE_ORIGINAL)) \<and>
         (length hs = 43 \<longrightarrow> cursor (advances hs s) = (STAGE1_1, STAGETYPE_ORIGINAL))"
proof -
  have v: "validCursor (cursor (advances hs s))"
    using assms by (simp add: cursor_advances validCursor_funpow validCursor_first)
  have ceil: "fst (cursor (advances hs s)) \<in> {7, 8} \<longrightarrow>
            snd (cursor (advances hs s)) \<le> STAGETYPE_REPENTANCE"
    using v by (auto simp: validCursor_def getMaxStageType_def)
  have zero: "getMaxStageType (fst (cursor (advances hs s))) = STAGETYPE_ORIGINAL \<longrightarrow>
            snd (cursor (advances hs s)) = STAGETYPE_ORIGINAL"
    using v by (auto simp: validCursor_def)
  have at33: "length hs = 33 \<longrightarrow> cursor (advances hs s) = (7, STAGETYPE_REPENTANCE)"
    using assms by (simp add: cursor_advances_first fullTraversal_eq enum_defs)
  have at37: "length hs = 37 \<longrightarrow> cursor (advances hs s) = (8, STAGETYPE_REPENTANCE)"
    using assms by (simp add: cursor_advances_first fullTraversal_eq enum_defs)
  have at42: "length hs = 42 \<longrightarrow> cursor (advances hs s) = (12, STAGETYPE_ORIGINAL)"
    using assms by (simp add: cursor_advances_first fullTraversal_eq enum_defs)
  have at43: "length hs = 43 \<longrightarrow> cursor (advances hs s) = (STAGE1_1, STAGETYPE_ORIGINAL)"
    using assms by (simp add: cursor_advances_wrap)
  from ceil zero at33 at37 at42 at43 show ?thesis by blast
qed

theorem variant_ceilings_reached_witness:
  "cursor initial = (STAGE1_1, STAGETYPE_ORIGINAL) \<and>
   cursor (advances (replicate 33 hostA) initial) = (7, STAGETYPE_REPENTANCE) \<and>
   snd (cursor (advances (replicate 33 hostA) initial)) \<le> STAGETYPE_REPENTANCE \<and>
   cursor (advances (replicate 37 hostA) initial) = (8, STAGETYPE_REPENTANCE) \<and>
   cursor (advances (replicate 42 hostA) initial) = (12, STAGETYPE_ORIGINAL) \<and>
   getMaxStageType 12 = STAGETYPE_ORIGINAL \<and>
   cursor (advances (replicate 43 hostA) initial) = (STAGE1_1, STAGETYPE_ORIGINAL)"
proof -
  have h: "cursor initial = (STAGE1_1, STAGETYPE_ORIGINAL)"
    by (simp add: cursor_def initial_def)
  have g: "getMaxStageType 12 = STAGETYPE_ORIGINAL"
    by (simp add: getMaxStageType_def)
  show ?thesis
    using h g
      variant_ceilings_reached [OF h, of "replicate 33 hostA"]
      variant_ceilings_reached [OF h, of "replicate 37 hostA"]
      variant_ceilings_reached [OF h, of "replicate 42 hostA"]
      variant_ceilings_reached [OF h, of "replicate 43 hostA"]
    by simp
qed

section \<open>One seed, from the first floor to the fold\<close>

lemma incrementStageType_next:
  "i < 42 \<Longrightarrow> cursor s = fullTraversal ! i \<Longrightarrow>
   incrementStageType h s =
     (Inr False, s\<lparr>recordingStage := fst (fullTraversal ! Suc i),
                     recordingStageType := snd (fullTraversal ! Suc i)\<rparr>)"
  by (simp add: incrementStageType_eq nth_notDone nth_step)

lemma traverse_short:
  "i + n \<le> 42 \<Longrightarrow> cursor s = fullTraversal ! i \<Longrightarrow> traverse n h s = None"
proof (induction n arbitrary: i s)
  case 0
  show ?case by simp
next
  case (Suc n)
  from Suc.prems have i: "i < 42" by simp
  let ?s1 = "s\<lparr>recordingStage := fst (fullTraversal ! Suc i),
                recordingStageType := snd (fullTraversal ! Suc i)\<rparr>"
  have "traverse n h ?s1 = None"
    using Suc.prems by (intro Suc.IH[of "Suc i"]) (simp_all add: cursor_def)
  with i Suc.prems(2) show ?case
    by (simp add: incrementStageType_next)
qed

lemma drop_last_fullTraversal: "drop 42 fullTraversal = [(12, 0)]"
  by (simp add: fullTraversal_eq)

lemma traverse_full:
  "i + n = 42 \<Longrightarrow> cursor s = fullTraversal ! i \<Longrightarrow> modRef s \<noteq> None \<Longrightarrow>
   \<exists>s'. traverse (Suc n) h s = Some (None, drop i fullTraversal, s') \<and>
        cursor s' = (STAGE1_1, STAGETYPE_ORIGINAL) \<and> restart s' \<and>
        seedsMapSize s' = Suc (seedsMapSize s) \<and>
        seedsMap s' = (seedsMap s)(getStartSeedString h \<mapsto> floorsMap s)"
proof (induction n arbitrary: i s)
  case 0
  then have c: "cursor s = (12, 0)" by (simp add: nth_last)
  obtain m where m: "modRef s = Some m" using 0 by auto
  show ?case
    using c m 0(1)
    by (auto simp: incrementStageType_eq done_last recordAllFloorsToSeedMap_eq Let_def
          restartOnNextFrame_def cursor_def drop_last_fullTraversal fun_eq_iff)
next
  case (Suc n)
  from Suc.prems have i: "i < 42" by simp
  let ?s1 = "s\<lparr>recordingStage := fst (fullTraversal ! Suc i),
                recordingStageType := snd (fullTraversal ! Suc i)\<rparr>"
  have "\<exists>s'. traverse (Suc n) h ?s1 = Some (None, drop (Suc i) fullTraversal, s') \<and>
        cursor s' = (STAGE1_1, STAGETYPE_ORIGINAL) \<and> restart s' \<and>
        seedsMapSize s' = Suc (seedsMapSize ?s1) \<and>
        seedsMap s' = (seedsMap ?s1)(getStartSeedString h \<mapsto> floorsMap ?s1)"
    using Suc.prems by (intro Suc.IH[of "Suc i"]) (simp_all add: cursor_def)
  then obtain s' where t: "traverse (Suc n) h ?s1 = Some (None, drop (Suc i) fullTraversal, s')"
    and r: "cursor s' = (STAGE1_1, STAGETYPE_ORIGINAL)" "restart s'"
       "seedsMapSize s' = Suc (seedsMapSize s)"
       "seedsMap s' = (seedsMap s)(getStartSeedString h \<mapsto> floorsMap s)"
    by auto
  have d: "cursor s # drop (Suc i) fullTraversal = drop i fullTraversal"
    using i Suc.prems(2) by (simp add: Cons_nth_drop_Suc length_fullTraversal)
  have "traverse (Suc (Suc n)) h s = Some (None, drop i fullTraversal, s')"
    using i Suc.prems(2) t d by (simp add: incrementStageType_next del: traverse.simps(2)[of "Suc n"])
  with r show ?case by blast
qed

lemma floorsRecorded_notin:
  "k \<notin> cursorKey ` set cs \<Longrightarrow> floorsRecorded cs hs m k = m k"
  by (induction cs hs m rule: floorsRecorded.induct) auto

lemma dom_floorsRecorded:
  "length cs \<le> length hs \<Longrightarrow> dom (floorsRecorded cs hs m) = dom m \<union> cursorKey ` set cs"
  by (induction cs hs m rule: floorsRecorded.induct) auto

lemma floorsRecorded_nth:
  "distinct (map cursorKey cs) \<Longrightarrow> i < length cs \<Longrightarrow> length cs \<le> length hs \<Longrightarrow>
   floorsRecorded cs hs m (cursorKey (cs ! i)) = Some (recordRooms (getRooms (hs ! i)) Map.empty)"
proof (induction cs arbitrary: hs m i)
  case Nil
  then show ?case by simp
next
  case (Cons c cs)
  from Cons.prems(3) obtain h hs' where hs: "hs = h # hs'"
    by (cases hs) auto
  show ?case
  proof (cases i)
    case 0
    with Cons.prems(1) hs show ?thesis by (simp add: floorsRecorded_notin)
  next
    case (Suc j)
    have "floorsRecorded cs hs' (m(cursorKey c \<mapsto> recordRooms (getRooms h) Map.empty))
            (cursorKey (cs ! j)) = Some (recordRooms (getRooms (hs' ! j)) Map.empty)"
      using Cons.prems Suc hs by (intro Cons.IH) simp_all
    with Suc hs show ?thesis by simp
  qed
qed

lemma floorsRecorded_snoc:
  "length cs = length hs \<Longrightarrow>
   floorsRecorded (cs @ [c]) (hs @ [h]) m =
     (floorsRecorded cs hs m)(cursorKey c \<mapsto> recordRooms (getRooms h) Map.empty)"
  by (induction cs hs m rule: floorsRecorded.induct) simp_all

lemma distinct_keys: "distinct (map cursorKey fullTraversal)"
  by (simp add: fullTraversal_eq cursorKey_def floorsMapIndex_def tostring_eval)

lemma run_append: "run (es @ fs) s = run fs (run es s)"
  by (induction es arbitrary: s) simp_all

lemma run_within_seed:
  "i + length hs \<le> 42 \<Longrightarrow> cursor s = fullTraversal ! i \<Longrightarrow>
   currentStartSeedString s = Some seed \<Longrightarrow> \<forall>h\<in>set hs. getStartSeedString h = seed \<Longrightarrow>
   \<exists>cs. run (map PostNewLevel hs) s =
          s\<lparr>recordingStage := fst (fullTraversal ! (i + length hs)),
            recordingStageType := snd (fullTraversal ! (i + length hs)),
            tables := (tables s)(floorsMap s :=
              floorsRecorded (take (length hs) (drop i fullTraversal)) hs (tables s (floorsMap s))),
            out := out s @ cs\<rparr> \<and>
        (\<forall>d. SaveData d \<notin> set cs) \<and> ExecuteCommand ''restart'' \<notin> set cs"
proof (induction hs arbitrary: i s)
  case Nil
  from Nil(2)[symmetric] have "fst (fullTraversal ! i) = recordingStage s"
    "snd (fullTraversal ! i) = recordingStageType s"
    by (simp_all add: cursor_def)
  then have "s = s\<lparr>recordingStage := fst (fullTraversal ! i),
            recordingStageType := snd (fullTraversal ! i),
            tables := (tables s)(floorsMap s := tables s (floorsMap s)),
            out := out s @ []\<rparr>"
    by simp
  then show ?case by (intro exI[of _ "[]"]) simp
next
  case (Cons h hs)
  from Cons.prems have i: "i < 42" and seed: "Some (getStartSeedString h) = currentStartSeedString s"
    by simp_all
  let ?key = "floorsMapIndex (recordingStage s) (recordingStageType s)"
  let ?T1 = "(tables s (floorsMap s))(?key \<mapsto> recordRooms (getRooms h) Map.empty)"
  let ?c1 = "[DebugString (''MC_POST_NEW_LEVEL - ''
                      @ tostring (getStage h) @ ''.'' @ tostring (getStageType h)),
                    DebugString (''Going to stage: ''
                      @ tostring (fst (fullTraversal ! Suc i)) @ ''.''
                      @ tostring (snd (fullTraversal ! Suc i))),
                    GoToStage (fst (fullTraversal ! Suc i)) (snd (fullTraversal ! Suc i))]"
  let ?s1 = "s\<lparr>recordingStage := fst (fullTraversal ! Suc i),
                 recordingStageType := snd (fullTraversal ! Suc i),
                 tables := (tables s)(floorsMap s := ?T1),
                 out := out s @ ?c1\<rparr>"
  have step: "postNewLevel h s = (Inr (), ?s1)"
    using i seed Cons.prems(2) by (simp add: postNewLevel_next nth_notDone nth_step)
  have "\<exists>cs. run (map PostNewLevel hs) ?s1 =
          ?s1\<lparr>recordingStage := fst (fullTraversal ! (Suc i + length hs)),
            recordingStageType := snd (fullTraversal ! (Suc i + length hs)),
            tables := (tables ?s1)(floorsMap ?s1 :=
              floorsRecorded (take (length hs) (drop (Suc i) fullTraversal)) hs (tables ?s1 (floorsMap ?s1))),
            out := out ?s1 @ cs\<rparr> \<and>
        (\<forall>d. SaveData d \<notin> set cs) \<and> ExecuteCommand ''restart'' \<notin> set cs"
    using Cons.prems by (intro Cons.IH) (simp_all add: cursor_def)
  then obtain cs where
    r: "run (map PostNewLevel hs) ?s1 =
          ?s1\<lparr>recordingStage := fst (fullTraversal ! (Suc i + length hs)),
            recordingStageType := snd (fullTraversal ! (Suc i + length hs)),
            tables := (tables ?s1)(floorsMap ?s1 :=
              floorsRecorded (take (length hs) (drop (Suc i) fullTraversal)) hs (tables ?s1 (floorsMap ?s1))),
            out := out ?s1 @ cs\<rparr>"
    and cs: "\<forall>d. SaveData d \<notin> set cs" "ExecuteCommand ''restart'' \<notin> set cs"
    by blast
  have d: "drop i fullTraversal = (recordingStage s, recordingStageType s) # drop (Suc i) fullTraversal"
    using i Cons.prems(2) by (simp add: Cons_nth_drop_Suc length_fullTraversal cursor_def)
  have "run (map PostNewLevel (h # hs)) s = run (map PostNewLevel hs) ?s1"
    by (simp only: list.map run.simps handle.simps step snd_conv)
  also note r
  also have "?s1\<lparr>recordingStage := fst (fullTraversal ! (Suc i + length hs)),
            recordingStageType := snd (fullTraversal ! (Suc i + length hs)),
            tables := (tables ?s1)(floorsMap ?s1 :=
              floorsRecorded (take (length hs) (drop (Suc i) fullTraversal)) hs (tables ?s1 (floorsMap ?s1))),
            out := out ?s1 @ cs\<rparr> =
          s\<lparr>recordingStage := fst (fullTraversal ! (i + length (h # hs))),
            recordingStageType := snd (fullTraversal ! (i + length (h # hs))),
            tables := (tables s)(floorsMap s :=
              floorsRecorded (take (length (h # hs)) (drop i fullTraversal)) (h # hs) (tables s (floorsMap s))),
            out := out s @ (?c1 @ cs)\<rparr>"
    by (simp add: d cursorKey_def)
  finally have "run (map PostNewLevel (h # hs)) s =
          s\<lparr>recordingStage := fst (fullTraversal ! (i + length (h # hs))),
            recordingStageType := snd (fullTraversal ! (i + length (h # hs))),
            tables := (tables s)(floorsMap s :=
              floorsRecorded (take (length (h # hs)) (drop i fullTraversal)) (h # hs) (tables s (floorsMap s))),
            out := out s @ (?c1 @ cs)\<rparr>" .
  moreover have "(\<forall>d. SaveData d \<notin> set (?c1 @ cs)) \<and> ExecuteCommand ''restart'' \<notin> set (?c1 @ cs)"
    using cs by simp
  ultimately show ?case by blast
qed

lemma take_42_fullTraversal: "take 42 fullTraversal @ [(12, 0)] = fullTraversal"
  using append_take_drop_id[of 42 fullTraversal] by (simp only: drop_last_fullTraversal)

lemma stagesToRecord_eq: "stagesToRecord = [1, 2, 3, 4, 5, 6, 7, 8, 10, 11, 12]"
  by (simp add: stagesToRecord_def enum_defs upto_rec1)

lemma stages_of_fullTraversal: "remdups_adj (map fst fullTraversal) = stagesToRecord"
  by (simp add: stagesToRecord_eq fullTraversal_eq)

lemma distinct_fullTraversal: "distinct fullTraversal"
  using distinct_keys by (simp add: distinct_map)

lemma card_keys: "card (cursorKey ` set fullTraversal) = 43"
  using distinct_card[OF distinct_keys] by (simp add: length_fullTraversal)

lemma run_before_fold:
  assumes "cursor s = (STAGE1_1, STAGETYPE_ORIGINAL)" "currentStartSeedString s = Some seed"
    "\<forall>h\<in>set hs. getStartSeedString h = seed" "k \<le> 42"
  shows "seedsMap (run (map PostNewLevel (take k hs)) s) = seedsMap s \<and>
         seedsMapSize (run (map PostNewLevel (take k hs)) s) = seedsMapSize s \<and>
         restart (run (map PostNewLevel (take k hs)) s) = restart s \<and>
         (\<forall>d. SaveData d \<notin> set (newCalls s (run (map PostNewLevel (take k hs)) s)))"
proof -
  have "\<exists>cs. run (map PostNewLevel (take k hs)) s =
          s\<lparr>recordingStage := fst (fullTraversal ! (0 + length (take k hs))),
            recordingStageType := snd (fullTraversal ! (0 + length (take k hs))),
            tables := (tables s)(floorsMap s :=
              floorsRecorded (take (length (take k hs)) (drop 0 fullTraversal)) (take k hs) (tables s (floorsMap s))),
            out := out s @ cs\<rparr> \<and>
        (\<forall>d. SaveData d \<notin> set cs) \<and> ExecuteCommand ''restart'' \<notin> set cs"
    using assms by (intro run_within_seed[where seed = seed]) (auto simp: nth_last dest: in_set_takeD)
  then obtain cs where r: "run (map PostNewLevel (take k hs)) s =
          s\<lparr>recordingStage := fst (fullTraversal ! (0 + length (take k hs))),
            recordingStageType := snd (fullTraversal ! (0 + length (take k hs))),
            tables := (tables s)(floorsMap s :=
              floorsRecorded (take (length (take k hs)) (drop 0 fullTraversal)) (take k hs) (tables s (floorsMap s))),
            out := out s @ cs\<rparr>" and cs: "\<forall>d. SaveData d \<notin> set cs"
    by blast
  show ?thesis
    using cs by (simp add: r newCalls_def)
qed

lemma run_whole_seed:
  assumes c: "cursor s = (STAGE1_1, STAGETYPE_ORIGINAL)"
      and m: "modRef s \<noteq> None"
      and cur: "currentStartSeedString s = Some seed"
      and len: "length hs = 43"
      and seeds: "\<forall>h\<in>set hs. getStartSeedString h = seed"
  shows "dataset (run (map PostNewLevel hs) s) seed
           = Some (floorsRecorded fullTraversal hs (currentFloors s)) \<and>
         seedsMapSize (run (map PostNewLevel hs) s) = Suc (seedsMapSize s) \<and>
         restart (run (map PostNewLevel hs) s) \<and>
         cursor (run (map PostNewLevel hs) s) = (STAGE1_1, STAGETYPE_ORIGINAL)"
proof -
  from len have ne: "hs \<noteq> []" by auto
  let ?hs' = "butlast hs" and ?hl = "last hs"
  have split: "hs = ?hs' @ [?hl]" using ne by simp
  have len': "length ?hs' = 42" using len by simp
  have seeds': "\<forall>h\<in>set ?hs'. getStartSeedString h = seed"
    using seeds by (auto dest: in_set_butlastD)
  have seedl: "getStartSeedString ?hl = seed" using seeds ne by simp
  let ?T = "floorsRecorded (take 42 fullTraversal) ?hs' (tables s (floorsMap s))"
  have "\<exists>cs. run (map PostNewLevel ?hs') s =
          s\<lparr>recordingStage := fst (fullTraversal ! (0 + length ?hs')),
            recordingStageType := snd (fullTraversal ! (0 + length ?hs')),
            tables := (tables s)(floorsMap s :=
              floorsRecorded (take (length ?hs') (drop 0 fullTraversal)) ?hs' (tables s (floorsMap s))),
            out := out s @ cs\<rparr> \<and>
        (\<forall>d. SaveData d \<notin> set cs) \<and> ExecuteCommand ''restart'' \<notin> set cs"
    using c cur seeds' len' by (intro run_within_seed[where seed = seed]) (simp_all add: nth_last)
  then obtain cs where r: "run (map PostNewLevel ?hs') s =
          s\<lparr>recordingStage := 12, recordingStageType := 0,
            tables := (tables s)(floorsMap s := ?T), out := out s @ cs\<rparr>"
    by (auto simp: len nth_last)
  let ?s42 = "s\<lparr>recordingStage := 12, recordingStageType := 0,
            tables := (tables s)(floorsMap s := ?T), out := out s @ cs\<rparr>"
  have run: "run (map PostNewLevel hs) s = snd (postNewLevel ?hl ?s42)"
    by (subst split) (simp add: run_append r del: append_butlast_last_id)
  obtain md where md: "modRef s = Some md" using m by auto
  have T: "?T(cursorKey (12, 0) \<mapsto> recordRooms (getRooms ?hl) Map.empty)
           = floorsRecorded fullTraversal hs (tables s (floorsMap s))"
  proof -
    have "floorsRecorded (take 42 fullTraversal @ [(12, 0)]) (?hs' @ [?hl]) (tables s (floorsMap s))
          = ?T(cursorKey (12, 0) \<mapsto> recordRooms (getRooms ?hl) Map.empty)"
      by (rule floorsRecorded_snoc) (simp add: len length_fullTraversal)
    then show ?thesis
      by (simp only: take_42_fullTraversal split[symmetric])
  qed
  have d: "seedDone (cursor ?s42)" by (simp add: cursor_def done_last)
  have sd: "Some (getStartSeedString ?hl) = currentStartSeedString ?s42"
    using seedl cur by simp
  show ?thesis
    unfolding run postNewLevel_done[OF sd d]
    using md seedl T
    by (simp add: Let_def dataset_def cursor_def currentFloors_def cursorKey_def)
qed

lemma startedState_eq:
  "startedState =
     \<lparr> modRef = Some (Mod ''isaac-floor-recorder'' 1),
       currentStartSeedString = Some ''ABCD 1234'', restart = False,
       recordingStage = 1, recordingStageType = 0,
       floorsMap = 1, seedsMap = Map.empty, seedsMapSize = 0,
       tables = (\<lambda>_. Map.empty), nextRef = 2,
       out = [RegisterMod ''isaac-floor-recorder'' 1, AddCallback MC_POST_RENDER,
              AddCallback MC_POST_GAME_STARTED, AddCallback MC_POST_NEW_LEVEL,
              DebugString ''MC_POST_NEW_LEVEL - 1.0'',
              DebugString ''MC_POST_GAME_STARTED - ABCD 1234'',
              GoToStage 1 0] \<rparr>"
  by (simp add: startedState_def main_def initial_def hostA_def callback_defs enum_defs
        tostring_eval Let_def fun_eq_iff)

text \<open>
  C1. From a state whose cursor is the first stage with the base variant,
  applying \<^verbatim>\<open>incrementStageType\<close> until it returns true takes exactly 43
  applications (42 are not enough) and visits the cursors of \<open>fullTraversal\<close>
  in this order: the stages 1 to 8 and 10 to 12, increasing, each once and
  each with all its variants. Driven by 43 floor arrivals of the same seed, the
  program records one floor per cursor and folds the seed at the 43rd arrival,
  not before: the seed's entry in the Dataset then has exactly the 43 keys
  \<^verbatim>\<open>stage.stageType\<close> of the cursors visited, the key of the \<open>i\<close>-th cursor
  holding the rooms recorded at the \<open>i\<close>-th arrival.
\<close>

theorem seed_traversal_complete:
  assumes "cursor s = (STAGE1_1, STAGETYPE_ORIGINAL)" and "modRef s \<noteq> None"
      and "currentFloors s = Map.empty" and "currentStartSeedString s = Some seed"
      and "length hs = 43" and "\<forall>h\<in>set hs. getStartSeedString h = seed"
  shows "(\<exists>s'. traverse 43 h s = Some (None, fullTraversal, s') \<and> restart s' \<and>
               cursor s' = (STAGE1_1, STAGETYPE_ORIGINAL) \<and>
               seedsMapSize s' = Suc (seedsMapSize s)) \<and>
         (\<forall>n<43. traverse n h s = None) \<and>
         length fullTraversal = 43 \<and> distinct fullTraversal \<and>
         stagesToRecord = [1, 2, 3, 4, 5, 6, 7, 8, 10, 11, 12] \<and>
         remdups_adj (map fst fullTraversal) = stagesToRecord \<and>
         (\<forall>k<43. seedsMap (run (map PostNewLevel (take k hs)) s) = seedsMap s \<and>
                 seedsMapSize (run (map PostNewLevel (take k hs)) s) = seedsMapSize s) \<and>
         dataset (run (map PostNewLevel hs) s) seed
           = Some (floorsRecorded fullTraversal hs Map.empty) \<and>
         seedsMapSize (run (map PostNewLevel hs) s) = Suc (seedsMapSize s) \<and>
         dom (floorsRecorded fullTraversal hs Map.empty) = cursorKey ` set fullTraversal \<and>
         card (dom (floorsRecorded fullTraversal hs Map.empty)) = 43 \<and>
         (\<forall>i<43. floorsRecorded fullTraversal hs Map.empty (cursorKey (fullTraversal ! i))
                   = Some (recordRooms (getRooms (hs ! i)) Map.empty)) \<and>
         (\<forall>c. cursorKey c = tostring (fst c) @ ''.'' @ tostring (snd c))"
proof -
  have first: "cursor s = fullTraversal ! 0"
    using assms(1) by (simp add: nth_last)
  have "\<exists>s'. traverse (Suc 42) h s = Some (None, drop 0 fullTraversal, s') \<and>
        cursor s' = (STAGE1_1, STAGETYPE_ORIGINAL) \<and> restart s' \<and>
        seedsMapSize s' = Suc (seedsMapSize s) \<and>
        seedsMap s' = (seedsMap s)(getStartSeedString h \<mapsto> floorsMap s)"
    using first assms(2) by (intro traverse_full) simp_all
  then have a: "\<exists>s'. traverse 43 h s = Some (None, fullTraversal, s') \<and> restart s' \<and>
               cursor s' = (STAGE1_1, STAGETYPE_ORIGINAL) \<and>
               seedsMapSize s' = Suc (seedsMapSize s)"
    by (auto simp del: traverse.simps)
  have b: "\<forall>n<43. traverse n h s = None"
    using first by (auto intro: traverse_short[of 0])
  have c: "\<forall>k<43. seedsMap (run (map PostNewLevel (take k hs)) s) = seedsMap s \<and>
                 seedsMapSize (run (map PostNewLevel (take k hs)) s) = seedsMapSize s"
    using run_before_fold[OF assms(1) assms(4) assms(6)] by auto
  have d: "dataset (run (map PostNewLevel hs) s) seed
           = Some (floorsRecorded fullTraversal hs Map.empty) \<and>
         seedsMapSize (run (map PostNewLevel hs) s) = Suc (seedsMapSize s)"
    using run_whole_seed[OF assms(1) assms(2) assms(4) assms(5) assms(6)] assms(3) by simp
  have e: "dom (floorsRecorded fullTraversal hs Map.empty) = cursorKey ` set fullTraversal"
    using assms(5) by (simp add: dom_floorsRecorded length_fullTraversal)
  have f: "card (dom (floorsRecorded fullTraversal hs Map.empty)) = 43"
    by (simp only: e card_keys)
  have g: "\<forall>i<43. floorsRecorded fullTraversal hs Map.empty (cursorKey (fullTraversal ! i))
                   = Some (recordRooms (getRooms (hs ! i)) Map.empty)"
    using assms(5) by (simp add: floorsRecorded_nth distinct_keys length_fullTraversal)
  have k: "\<forall>c. cursorKey c = tostring (fst c) @ ''.'' @ tostring (snd c)"
    by (simp add: cursorKey_def floorsMapIndex_def)
  from a b c d e f g k length_fullTraversal distinct_fullTraversal stagesToRecord_eq
    stages_of_fullTraversal
  show ?thesis by blast
qed

theorem seed_traversal_complete_witness:
  "cursor startedState = (STAGE1_1, STAGETYPE_ORIGINAL) \<and> modRef startedState \<noteq> None \<and>
   currentFloors startedState = Map.empty \<and>
   currentStartSeedString startedState = Some ''ABCD 1234'' \<and>
   length (replicate 43 hostA) = 43 \<and>
   (\<exists>s'. traverse 43 hostA startedState = Some (None, fullTraversal, s')) \<and>
   traverse 42 hostA startedState = None \<and>
   dataset (run (map PostNewLevel (replicate 42 hostA)) startedState) ''ABCD 1234'' = None \<and>
   card (dom (the (dataset (run (map PostNewLevel (replicate 43 hostA)) startedState)
                     ''ABCD 1234''))) = 43 \<and>
   ''10.1'' \<in> dom (the (dataset (run (map PostNewLevel (replicate 43 hostA)) startedState)
                     ''ABCD 1234''))"
proof -
  have h1: "cursor startedState = (STAGE1_1, STAGETYPE_ORIGINAL)"
    by (simp add: startedState_eq cursor_def enum_defs)
  have h2: "modRef startedState \<noteq> None"
    by (simp add: startedState_eq)
  have h3: "currentFloors startedState = Map.empty"
    by (simp add: startedState_eq currentFloors_def)
  have h4: "currentStartSeedString startedState = Some ''ABCD 1234''"
    by (simp add: startedState_eq)
  have h5: "length (replicate 43 hostA) = 43"
    by simp
  have h6: "\<forall>h\<in>set (replicate 43 hostA). getStartSeedString h = ''ABCD 1234''"
    by (simp add: hostA_def)
  have t42: "take 42 (replicate 43 hostA) = replicate 42 hostA"
    by simp
  have k: "''10.1'' \<in> cursorKey ` set fullTraversal"
  proof -
    have "cursorKey (10, 1) = ''10.1''"
      by (simp add: cursorKey_def floorsMapIndex_def tostring_eval)
    moreover have "(10, 1) \<in> set fullTraversal"
      by (simp add: fullTraversal_eq)
    ultimately show ?thesis by (metis imageI)
  qed
  have e: "seedsMap startedState ''ABCD 1234'' = None"
    by (simp add: startedState_eq)
  note T = seed_traversal_complete [OF h1 h2 h3 h4 h5 h6, of hostA]
  from T have "seedsMap (run (map PostNewLevel (take 42 (replicate 43 hostA))) startedState)
      = seedsMap startedState"
    by simp
  with e have n: "dataset (run (map PostNewLevel (replicate 42 hostA)) startedState) ''ABCD 1234'' = None"
    by (simp add: t42 dataset_def)
  from T have t: "traverse 42 hostA startedState = None"
    by simp
  from T have a: "\<exists>s'. traverse 43 hostA startedState = Some (None, fullTraversal, s')"
    by blast
  from T have d: "dataset (run (map PostNewLevel (replicate 43 hostA)) startedState) ''ABCD 1234''
           = Some (floorsRecorded fullTraversal (replicate 43 hostA) Map.empty)"
    by blast
  from T have f: "card (dom (floorsRecorded fullTraversal (replicate 43 hostA) Map.empty)) = 43"
    by blast
  from T have "dom (floorsRecorded fullTraversal (replicate 43 hostA) Map.empty)
      = cursorKey ` set fullTraversal"
    by blast
  with k have m: "''10.1'' \<in> dom (floorsRecorded fullTraversal (replicate 43 hostA) Map.empty)"
    by simp
  have c: "card (dom (the (dataset (run (map PostNewLevel (replicate 43 hostA)) startedState)
                     ''ABCD 1234''))) = 43"
    by (simp only: d option.sel f)
  have m': "''10.1'' \<in> dom (the (dataset (run (map PostNewLevel (replicate 43 hostA)) startedState)
                     ''ABCD 1234''))"
    using m by (simp only: d option.sel)
  from h1 h2 h3 h4 h5 a t n c m' show ?thesis
    by blast
qed

section \<open>The callbacks' frame conditions, the restart flag, the start of a run\<close>

lemma newCalls_append: "out s' = out s @ cs \<Longrightarrow> newCalls s s' = cs"
  by (simp add: newCalls_def)

text \<open>
  C5. When the seed string the host reports at a floor arrival differs from
  the remembered one, \<^verbatim>\<open>postNewLevel\<close> returns normally and changes two
  things only: the remembered seed string, and the host's log, by its one
  diagnostic line. The floors table in progress, the Dataset, the cursor, the
  counter of completed seeds and the restart flag are as before, and no floor
  is loaded.
\<close>

theorem other_seed_only_remembered:
  assumes "Some (getStartSeedString h) \<noteq> currentStartSeedString s"
  shows "postNewLevel h s =
           (Inr (), s\<lparr>currentStartSeedString := Some (getStartSeedString h),
                       out := out s @ [DebugString (''MC_POST_NEW_LEVEL - ''
                          @ tostring (getStage h) @ ''.'' @ tostring (getStageType h))]\<rparr>) \<and>
         currentStartSeedString (snd (postNewLevel h s)) = Some (getStartSeedString h) \<and>
         currentFloors (snd (postNewLevel h s)) = currentFloors s \<and>
         dataset (snd (postNewLevel h s)) = dataset s \<and>
         cursor (snd (postNewLevel h s)) = cursor s \<and>
         seedsMapSize (snd (postNewLevel h s)) = seedsMapSize s \<and>
         restart (snd (postNewLevel h s)) = restart s \<and>
         (\<forall>a b. GoToStage a b \<notin> set (newCalls s (snd (postNewLevel h s))))"
  using assms
  by (simp add: postNewLevel_other currentFloors_def dataset_def cursor_def newCalls_def)

theorem other_seed_only_remembered_witness:
  "Some (getStartSeedString hostB) \<noteq> currentStartSeedString startedState \<and>
   currentStartSeedString (snd (postNewLevel hostB startedState)) = Some ''WXYZ 5678'' \<and>
   currentFloors (snd (postNewLevel hostB startedState)) = currentFloors startedState \<and>
   dataset (snd (postNewLevel hostB startedState)) = dataset startedState \<and>
   cursor (snd (postNewLevel hostB startedState)) = cursor startedState \<and>
   restart (snd (postNewLevel hostB startedState)) = restart startedState"
proof -
  have h: "Some (getStartSeedString hostB) \<noteq> currentStartSeedString startedState"
    by (simp add: startedState_eq hostB_def hostA_def)
  have g: "getStartSeedString hostB = ''WXYZ 5678''"
    by (simp add: hostB_def)
  note T = other_seed_only_remembered [OF h]
  from T have a0: "currentStartSeedString (snd (postNewLevel hostB startedState))
      = Some (getStartSeedString hostB)"
    by blast
  note a = a0[unfolded g]
  from T have b: "currentFloors (snd (postNewLevel hostB startedState)) = currentFloors startedState"
    "dataset (snd (postNewLevel hostB startedState)) = dataset startedState"
    "cursor (snd (postNewLevel hostB startedState)) = cursor startedState"
    "restart (snd (postNewLevel hostB startedState)) = restart startedState"
    by blast+
  from h a b show ?thesis
    by blast
qed

text \<open>
  C9. \<^verbatim>\<open>restartOnNextFrame\<close> sets the flag and calls nothing; none of \<^verbatim>\<open>main\<close>,
  \<^verbatim>\<open>postGameStarted\<close> and \<^verbatim>\<open>postNewLevel\<close> ever executes a console command. With
  the flag set, \<^verbatim>\<open>postRender\<close> clears it and then executes \<^verbatim>\<open>restart\<close>, once;
  with the flag clear it does nothing, so a second render event in a row adds
  nothing, and any positive number of render events after the flag was set
  executes the command exactly once.

  The flag is cleared before the command is issued: whatever the host does
  before \<^verbatim>\<open>Isaac.ExecuteCommand\<close> returns, it is handed the globals with the flag
  already clear, and \<^verbatim>\<open>postRender\<close> returns them as the host left them. So when
  the host starts the next run inside the call and that run asks for the
  restart that enables the curse suppression, this second restart is still
  pending when \<^verbatim>\<open>postRender\<close> returns, and the next render event issues it:
  two flag sets, two commands.
\<close>

theorem restart_is_one_shot:
  "restartOnNextFrame s = s\<lparr>restart := True\<rparr> \<and>
   newCalls s (restartOnNextFrame s) = [] \<and>
   (\<forall>cmd. ExecuteCommand cmd \<notin> set (newCalls s (main s))) \<and>
   (\<forall>cmd. ExecuteCommand cmd \<notin> set (newCalls s (snd (postGameStarted c h s)))) \<and>
   (\<forall>cmd. ExecuteCommand cmd \<notin> set (newCalls s (snd (postNewLevel h s)))) \<and>
   (restart s \<longrightarrow>
      postRender s = hostCall (ExecuteCommand ''restart'') (s\<lparr>restart := False\<rparr>) \<and>
      newCalls s (postRender s) = [ExecuteCommand ''restart''] \<and>
      \<not> restart (postRender s)) \<and>
   (\<not> restart s \<longrightarrow> postRender s = s) \<and>
   postRender (postRender s) = postRender s \<and>
   newCalls s (run (replicate (Suc n) PostRender) (restartOnNextFrame s))
     = [ExecuteCommand ''restart''] \<and>
   postRender s = postRenderIn (\<lambda>cmd. hostCall (ExecuteCommand cmd)) s \<and>
   (restart s \<longrightarrow>
      postRenderIn executeCommand s = executeCommand ''restart'' (s\<lparr>restart := False\<rparr>)) \<and>
   (\<not> restart s \<longrightarrow> postRenderIn executeCommand s = s) \<and>
   (restart s \<and> \<not> ineligible c h \<and> \<not> HasSeedEffect h SEED_PREVENT_ALL_CURSES \<longrightarrow>
      restart (postRenderIn (executeCommandStartingRun c h) s) \<and>
      newCalls s (postRenderIn (executeCommandStartingRun c h) s)
        = [ExecuteCommand ''restart'',
           DebugString (''MC_POST_GAME_STARTED - '' @ getStartSeedString h),
           AddSeedEffect SEED_PREVENT_ALL_CURSES,
           DebugString ''Disabling curses and restarting the run.''] \<and>
      \<not> restart (postRender (postRenderIn (executeCommandStartingRun c h) s)) \<and>
      newCalls s (postRender (postRenderIn (executeCommandStartingRun c h) s))
        = [ExecuteCommand ''restart'',
           DebugString (''MC_POST_GAME_STARTED - '' @ getStartSeedString h),
           AddSeedEffect SEED_PREVENT_ALL_CURSES,
           DebugString ''Disabling curses and restarting the run.'',
           ExecuteCommand ''restart''])"
proof -
  have a: "\<forall>cmd. ExecuteCommand cmd \<notin> set (newCalls s (snd (postGameStarted c h s)))"
    by (simp add: newCalls_def postGameStarted_def validateRun_def hostCall_def
          restartOnNextFrame_def newLuaTable_def VERBOSE_def Let_def)
  have m: "\<forall>cmd. ExecuteCommand cmd \<notin> set (newCalls s (main s))"
    by (simp add: newCalls_def main_def hostCall_def Let_def)
  have b: "\<forall>cmd. ExecuteCommand cmd \<notin> set (newCalls s (snd (postNewLevel h s)))"
  proof -
    consider (other) "Some (getStartSeedString h) \<noteq> currentStartSeedString s"
      | (nxt) "Some (getStartSeedString h) = currentStartSeedString s" "\<not> seedDone (cursor s)"
      | (fin) "Some (getStartSeedString h) = currentStartSeedString s" "seedDone (cursor s)"
      by blast
    then show ?thesis
    proof cases
      case other
      then show ?thesis by (simp add: postNewLevel_other newCalls_def)
    next
      case nxt
      then show ?thesis by (simp add: postNewLevel_next newCalls_def)
    next
      case fin
      then show ?thesis
        by (simp add: postNewLevel_done newCalls_def Let_def split: option.split)
    qed
  qed
  have idle: "\<And>t k. \<not> restart t \<Longrightarrow> run (replicate k PostRender) t = t"
  proof -
    fix t :: state and k
    assume "\<not> restart t"
    then show "run (replicate k PostRender) t = t"
      by (induction k) (simp_all add: postRender_eq)
  qed
  have "run (replicate (Suc n) PostRender) (restartOnNextFrame s)
        = run (replicate n PostRender) (s\<lparr>restart := False, out := out s @ [ExecuteCommand ''restart'']\<rparr>)"
    by (simp add: restartOnNextFrame_def postRender_eq hostCall_def)
  also have "\<dots> = s\<lparr>restart := False, out := out s @ [ExecuteCommand ''restart'']\<rparr>"
    by (rule idle) simp
  finally have e: "newCalls s (run (replicate (Suc n) PostRender) (restartOnNextFrame s))
     = [ExecuteCommand ''restart'']"
    by (simp add: newCalls_def)
  have f: "restartOnNextFrame s = s\<lparr>restart := True\<rparr> \<and> newCalls s (restartOnNextFrame s) = []"
    by (simp add: restartOnNextFrame_def newCalls_def)
  have g: "restart s \<longrightarrow>
      postRender s = hostCall (ExecuteCommand ''restart'') (s\<lparr>restart := False\<rparr>) \<and>
      newCalls s (postRender s) = [ExecuteCommand ''restart''] \<and>
      \<not> restart (postRender s)"
    by (simp add: postRender_eq hostCall_def newCalls_def)
  have i: "(\<not> restart s \<longrightarrow> postRender s = s) \<and> postRender (postRender s) = postRender s"
    by (simp add: postRender_eq hostCall_def)
  have j: "postRender s = postRenderIn (\<lambda>cmd. hostCall (ExecuteCommand cmd)) s"
    by (simp add: postRender_def)
  have k: "(restart s \<longrightarrow>
      postRenderIn executeCommand s = executeCommand ''restart'' (s\<lparr>restart := False\<rparr>)) \<and>
   (\<not> restart s \<longrightarrow> postRenderIn executeCommand s = s)"
    by (simp add: postRenderIn_def)
  have l: "restart s \<and> \<not> ineligible c h \<and> \<not> HasSeedEffect h SEED_PREVENT_ALL_CURSES \<longrightarrow>
      restart (postRenderIn (executeCommandStartingRun c h) s) \<and>
      newCalls s (postRenderIn (executeCommandStartingRun c h) s)
        = [ExecuteCommand ''restart'',
           DebugString (''MC_POST_GAME_STARTED - '' @ getStartSeedString h),
           AddSeedEffect SEED_PREVENT_ALL_CURSES,
           DebugString ''Disabling curses and restarting the run.''] \<and>
      \<not> restart (postRender (postRenderIn (executeCommandStartingRun c h) s)) \<and>
      newCalls s (postRender (postRenderIn (executeCommandStartingRun c h) s))
        = [ExecuteCommand ''restart'',
           DebugString (''MC_POST_GAME_STARTED - '' @ getStartSeedString h),
           AddSeedEffect SEED_PREVENT_ALL_CURSES,
           DebugString ''Disabling curses and restarting the run.'',
           ExecuteCommand ''restart'']"
    by (simp add: postRenderIn_def executeCommandStartingRun_def postRender_eq ineligible_def
          postGameStarted_def validateRun_def hostCall_def restartOnNextFrame_def VERBOSE_def
          Let_def newCalls_def)
  from a m b e f g i j k l show ?thesis by blast
qed

theorem restart_is_one_shot_witness:
  "restart (restartOnNextFrame startedState) \<and>
   newCalls startedState (restartOnNextFrame startedState) = [] \<and>
   newCalls (restartOnNextFrame startedState) (postRender (restartOnNextFrame startedState))
     = [ExecuteCommand ''restart''] \<and>
   \<not> restart (postRender (restartOnNextFrame startedState)) \<and>
   \<not> restart startedState \<and> postRender startedState = startedState \<and>
   newCalls startedState (run (replicate (Suc 2) PostRender) (restartOnNextFrame startedState))
     = [ExecuteCommand ''restart''] \<and>
   \<not> ineligible False hostNoCurses \<and> \<not> HasSeedEffect hostNoCurses SEED_PREVENT_ALL_CURSES \<and>
   restart (postRenderIn (executeCommandStartingRun False hostNoCurses)
              (restartOnNextFrame startedState)) \<and>
   \<not> restart (postRender (postRenderIn (executeCommandStartingRun False hostNoCurses)
              (restartOnNextFrame startedState))) \<and>
   newCalls (restartOnNextFrame startedState)
       (postRender (postRenderIn (executeCommandStartingRun False hostNoCurses)
              (restartOnNextFrame startedState)))
     = [ExecuteCommand ''restart'',
        DebugString (''MC_POST_GAME_STARTED - '' @ getStartSeedString hostNoCurses),
        AddSeedEffect SEED_PREVENT_ALL_CURSES,
        DebugString ''Disabling curses and restarting the run.'',
        ExecuteCommand ''restart''] \<and>
   postRenderIn (\<lambda>cmd t. t) startedState = startedState"
proof -
  have r: "restart (restartOnNextFrame startedState)"
    by (simp add: restartOnNextFrame_def)
  have n: "\<not> restart startedState"
    by (simp add: startedState_eq)
  have e: "\<not> ineligible False hostNoCurses"
    "\<not> HasSeedEffect hostNoCurses SEED_PREVENT_ALL_CURSES"
    by (simp_all add: ineligible_def hostNoCurses_def hostA_def)
  from r n e
    restart_is_one_shot [where s = "restartOnNextFrame startedState" and c = False
      and h = hostA and n = 0]
    restart_is_one_shot [where s = "restartOnNextFrame startedState" and c = False
      and h = hostNoCurses and n = 0]
    restart_is_one_shot [where s = startedState and c = False and h = hostA and n = 2
      and executeCommand = "\<lambda>cmd t. t"]
  show ?thesis
    by blast
qed

lemma postGameStarted_ineligible:
  "ineligible c h \<Longrightarrow>
   \<exists>msg. postGameStarted c h s =
     (Inl (Error msg),
      s\<lparr>out := out s @ [DebugString (''MC_POST_GAME_STARTED - '' @ getStartSeedString h)]\<rparr>)"
  by (auto simp: ineligible_def postGameStarted_def validateRun_def hostCall_def VERBOSE_def Let_def)

lemma postGameStarted_mitigation:
  "\<not> ineligible c h \<Longrightarrow> \<not> HasSeedEffect h SEED_PREVENT_ALL_CURSES \<Longrightarrow>
   postGameStarted c h s =
     (Inr (), s\<lparr>restart := True,
                 out := out s @ [DebugString (''MC_POST_GAME_STARTED - '' @ getStartSeedString h),
                                 AddSeedEffect SEED_PREVENT_ALL_CURSES,
                                 DebugString ''Disabling curses and restarting the run.'']\<rparr>)"
  by (simp add: ineligible_def postGameStarted_def validateRun_def hostCall_def VERBOSE_def
        restartOnNextFrame_def Let_def)

lemma postGameStarted_accepted:
  "\<not> ineligible c h \<Longrightarrow> HasSeedEffect h SEED_PREVENT_ALL_CURSES \<Longrightarrow>
   postGameStarted c h s =
     (Inr (), s\<lparr>floorsMap := nextRef s,
                 tables := (tables s)(nextRef s := Map.empty),
                 nextRef := Suc (nextRef s),
                 out := out s @ [DebugString (''MC_POST_GAME_STARTED - '' @ getStartSeedString h),
                                 GoToStage (recordingStage s) (recordingStageType s)]\<rparr>)"
  by (simp add: ineligible_def postGameStarted_def validateRun_def hostCall_def VERBOSE_def
        newLuaTable_def Let_def)

text \<open>
  C10. \<^verbatim>\<open>postGameStarted\<close> never moves the cursor. When it accepts the run, the
  floor it asks the host to load is the one at the cursor, which is the first
  pair exactly when the cursor is at its first position. When it asks for the
  restart that enables the curse suppression, the floors table in progress is
  the same table with the same contents.
\<close>

theorem run_start_keeps_cursor:
  "cursor (snd (postGameStarted c h s)) = cursor s \<and>
   (\<not> ineligible c h \<and> HasSeedEffect h SEED_PREVENT_ALL_CURSES \<longrightarrow>
      newCalls s (snd (postGameStarted c h s))
        = [DebugString (''MC_POST_GAME_STARTED - '' @ getStartSeedString h),
           GoToStage (recordingStage s) (recordingStageType s)]) \<and>
   (GoToStage (recordingStage s) (recordingStageType s)
        = GoToStage STAGE1_1 STAGETYPE_ORIGINAL
      \<longleftrightarrow> cursor s = (STAGE1_1, STAGETYPE_ORIGINAL)) \<and>
   (\<not> ineligible c h \<and> \<not> HasSeedEffect h SEED_PREVENT_ALL_CURSES \<longrightarrow>
      floorsMap (snd (postGameStarted c h s)) = floorsMap s \<and>
      tables (snd (postGameStarted c h s)) = tables s \<and>
      currentFloors (snd (postGameStarted c h s)) = currentFloors s)"
proof -
  have a: "cursor (snd (postGameStarted c h s)) = cursor s"
  proof (cases "ineligible c h")
    case True
    from postGameStarted_ineligible[OF True, of s] show ?thesis
      by (auto simp: cursor_def)
  next
    case False
    then show ?thesis
      by (cases "HasSeedEffect h SEED_PREVENT_ALL_CURSES")
         (simp_all add: postGameStarted_accepted postGameStarted_mitigation cursor_def)
  qed
  have b: "\<not> ineligible c h \<and> HasSeedEffect h SEED_PREVENT_ALL_CURSES \<longrightarrow>
      newCalls s (snd (postGameStarted c h s))
        = [DebugString (''MC_POST_GAME_STARTED - '' @ getStartSeedString h),
           GoToStage (recordingStage s) (recordingStageType s)]"
    by (simp add: postGameStarted_accepted newCalls_def)
  have d: "\<not> ineligible c h \<and> \<not> HasSeedEffect h SEED_PREVENT_ALL_CURSES \<longrightarrow>
      floorsMap (snd (postGameStarted c h s)) = floorsMap s \<and>
      tables (snd (postGameStarted c h s)) = tables s \<and>
      currentFloors (snd (postGameStarted c h s)) = currentFloors s"
    by (simp add: postGameStarted_mitigation currentFloors_def)
  have e: "GoToStage (recordingStage s) (recordingStageType s)
        = GoToStage STAGE1_1 STAGETYPE_ORIGINAL
      \<longleftrightarrow> cursor s = (STAGE1_1, STAGETYPE_ORIGINAL)"
    by (simp add: cursor_def)
  from a b d e show ?thesis by blast
qed

lemma midSeedState_fields:
  "recordingStage midSeedState = 1" "recordingStageType midSeedState = 1"
  "restart midSeedState = False" "floorsMap midSeedState = 1" "nextRef midSeedState = 2"
  "seedsMapSize midSeedState = 0"
  "currentStartSeedString midSeedState = Some ''ABCD 1234''"
  "modRef midSeedState = Some (Mod ''isaac-floor-recorder'' 1)"
  by (simp_all add: midSeedState_def startedState_eq hostA_def callback_defs enum_defs Let_def)

lemma example_hosts:
  "\<not> ineligible False hostA" "\<not> ineligible False hostB" "\<not> ineligible False hostNoCurses"
  "ineligible True hostA" "ineligible False hostHard"
  "HasSeedEffect hostA SEED_PREVENT_ALL_CURSES" "HasSeedEffect hostB SEED_PREVENT_ALL_CURSES"
  "\<not> HasSeedEffect hostNoCurses SEED_PREVENT_ALL_CURSES"
  "getStartSeedString hostA = ''ABCD 1234''" "getStartSeedString hostB = ''WXYZ 5678''"
  "getStartSeedString hostNoCurses = ''ABCD 1234''"
  by (simp_all add: ineligible_def hostA_def hostB_def hostNoCurses_def hostHard_def
        DIFFICULTY_NORMAL_def)

theorem run_start_keeps_cursor_witness:
  "\<not> ineligible False hostB \<and> HasSeedEffect hostB SEED_PREVENT_ALL_CURSES \<and>
   cursor (snd (postGameStarted False hostB midSeedState)) = (1, 1) \<and>
   newCalls midSeedState (snd (postGameStarted False hostB midSeedState))
     = [DebugString ''MC_POST_GAME_STARTED - WXYZ 5678'', GoToStage 1 1] \<and>
   \<not> ineligible False hostNoCurses \<and> \<not> HasSeedEffect hostNoCurses SEED_PREVENT_ALL_CURSES \<and>
   currentFloors (snd (postGameStarted False hostNoCurses midSeedState))
     = currentFloors midSeedState"
proof -
  note T1 = run_start_keeps_cursor [of False hostB midSeedState]
  note T2 = run_start_keeps_cursor [of False hostNoCurses midSeedState]
  have c: "cursor midSeedState = (1, 1)"
    by (simp add: cursor_def midSeedState_fields)
  from T1 c have a: "cursor (snd (postGameStarted False hostB midSeedState)) = (1, 1)"
    by simp
  from T1 example_hosts(2,7) have "newCalls midSeedState (snd (postGameStarted False hostB midSeedState))
        = [DebugString (''MC_POST_GAME_STARTED - '' @ getStartSeedString hostB),
           GoToStage (recordingStage midSeedState) (recordingStageType midSeedState)]"
    by blast
  then have b: "newCalls midSeedState (snd (postGameStarted False hostB midSeedState))
     = [DebugString ''MC_POST_GAME_STARTED - WXYZ 5678'', GoToStage 1 1]"
    by (simp add: midSeedState_fields example_hosts)
  from T2 example_hosts(3,8)
  have d: "currentFloors (snd (postGameStarted False hostNoCurses midSeedState))
     = currentFloors midSeedState"
    by blast
  from a b d example_hosts(2,3,7,8) show ?thesis
    by blast
qed

text \<open>
  C6, as the code has it. \<^verbatim>\<open>postGameStarted\<close> raises exactly when one of the five
  structural conditions holds, with the message of the first one that does, and
  then has only written its diagnostic line. Otherwise, without the curse
  suppression it adds the seed effect, sets the restart flag and returns,
  leaving the floors table and the cursor alone and loading nothing. With the
  curse suppression it replaces the floors table by a fresh empty one and asks
  the host to load the floor at the current cursor.
\<close>

theorem run_start_cases:
  "((\<exists>e. fst (postGameStarted c h s) = Inl e) \<longleftrightarrow> ineligible c h) \<and>
   (ineligible c h \<longrightarrow>
      snd (postGameStarted c h s)
        = s\<lparr>out := out s @ [DebugString (''MC_POST_GAME_STARTED - '' @ getStartSeedString h)]\<rparr>) \<and>
   (c \<longrightarrow> fst (postGameStarted c h s)
        = Inl (Error ''The isaac-floor-recorder mod will not work when continuing a run.'')) \<and>
   (\<not> c \<and> onSetSeed h \<longrightarrow> fst (postGameStarted c h s)
        = Inl (Error ''The isaac-floor-recorder mod will not work on set seeds.'')) \<and>
   (\<not> c \<and> \<not> onSetSeed h \<and> Difficulty h \<noteq> DIFFICULTY_NORMAL \<longrightarrow> fst (postGameStarted c h s)
        = Inl (Error ''The isaac-floor-recorder mod will not work on non-normal difficulties.'')) \<and>
   (\<not> c \<and> \<not> onSetSeed h \<and> Difficulty h = DIFFICULTY_NORMAL \<and> GetChallenge h \<noteq> CHALLENGE_NULL \<longrightarrow>
      fst (postGameStarted c h s)
        = Inl (Error ''The isaac-floor-recorder mod will not work on challenges.'')) \<and>
   (\<not> c \<and> \<not> onSetSeed h \<and> Difficulty h = DIFFICULTY_NORMAL \<and> GetChallenge h = CHALLENGE_NULL \<and>
    GetPlayerType h \<noteq> PLAYER_ISAAC \<longrightarrow>
      fst (postGameStarted c h s)
        = Inl (Error ''The isaac-floor-recorder mod will not work on characters other than Isaac.'')) \<and>
   (\<not> ineligible c h \<and> \<not> HasSeedEffect h SEED_PREVENT_ALL_CURSES \<longrightarrow>
      postGameStarted c h s =
        (Inr (), s\<lparr>restart := True,
                    out := out s @ [DebugString (''MC_POST_GAME_STARTED - '' @ getStartSeedString h),
                                    AddSeedEffect SEED_PREVENT_ALL_CURSES,
                                    DebugString ''Disabling curses and restarting the run.'']\<rparr>)) \<and>
   (\<not> ineligible c h \<and> HasSeedEffect h SEED_PREVENT_ALL_CURSES \<longrightarrow>
      postGameStarted c h s =
        (Inr (), s\<lparr>floorsMap := nextRef s,
                    tables := (tables s)(nextRef s := Map.empty),
                    nextRef := Suc (nextRef s),
                    out := out s @ [DebugString (''MC_POST_GAME_STARTED - '' @ getStartSeedString h),
                                    GoToStage (recordingStage s) (recordingStageType s)]\<rparr>) \<and>
      currentFloors (snd (postGameStarted c h s)) = Map.empty)"
proof -
  have a: "(\<exists>e. fst (postGameStarted c h s) = Inl e) \<longleftrightarrow> ineligible c h"
  proof (cases "ineligible c h")
    case True
    from postGameStarted_ineligible[OF True, of s] True show ?thesis by auto
  next
    case False
    then show ?thesis
      by (cases "HasSeedEffect h SEED_PREVENT_ALL_CURSES")
         (simp_all add: postGameStarted_accepted postGameStarted_mitigation)
  qed
  have b: "ineligible c h \<longrightarrow>
      snd (postGameStarted c h s)
        = s\<lparr>out := out s @ [DebugString (''MC_POST_GAME_STARTED - '' @ getStartSeedString h)]\<rparr>"
    using postGameStarted_ineligible[of c h s] by auto
  have m: "(c \<longrightarrow> fst (postGameStarted c h s)
        = Inl (Error ''The isaac-floor-recorder mod will not work when continuing a run.'')) \<and>
   (\<not> c \<and> onSetSeed h \<longrightarrow> fst (postGameStarted c h s)
        = Inl (Error ''The isaac-floor-recorder mod will not work on set seeds.'')) \<and>
   (\<not> c \<and> \<not> onSetSeed h \<and> Difficulty h \<noteq> DIFFICULTY_NORMAL \<longrightarrow> fst (postGameStarted c h s)
        = Inl (Error ''The isaac-floor-recorder mod will not work on non-normal difficulties.'')) \<and>
   (\<not> c \<and> \<not> onSetSeed h \<and> Difficulty h = DIFFICULTY_NORMAL \<and> GetChallenge h \<noteq> CHALLENGE_NULL \<longrightarrow>
      fst (postGameStarted c h s)
        = Inl (Error ''The isaac-floor-recorder mod will not work on challenges.'')) \<and>
   (\<not> c \<and> \<not> onSetSeed h \<and> Difficulty h = DIFFICULTY_NORMAL \<and> GetChallenge h = CHALLENGE_NULL \<and>
    GetPlayerType h \<noteq> PLAYER_ISAAC \<longrightarrow>
      fst (postGameStarted c h s)
        = Inl (Error ''The isaac-floor-recorder mod will not work on characters other than Isaac.''))"
    by (simp add: postGameStarted_def validateRun_def hostCall_def VERBOSE_def MOD_NAME_def Let_def)
  have d: "\<not> ineligible c h \<and> HasSeedEffect h SEED_PREVENT_ALL_CURSES \<longrightarrow>
      currentFloors (snd (postGameStarted c h s)) = Map.empty"
    by (simp add: postGameStarted_accepted currentFloors_def)
  from a b m d postGameStarted_mitigation[of c h s] postGameStarted_accepted[of c h s]
  show ?thesis by blast
qed

theorem run_start_cases_witness:
  "ineligible True hostA \<and>
   fst (postGameStarted True hostA startedState)
     = Inl (Error ''The isaac-floor-recorder mod will not work when continuing a run.'') \<and>
   ineligible False hostHard \<and>
   (\<exists>e. fst (postGameStarted False hostHard startedState) = Inl e) \<and>
   \<not> ineligible False hostNoCurses \<and> \<not> HasSeedEffect hostNoCurses SEED_PREVENT_ALL_CURSES \<and>
   postGameStarted False hostNoCurses startedState =
        (Inr (), startedState\<lparr>restart := True,
                    out := out startedState @
                      [DebugString (''MC_POST_GAME_STARTED - '' @ getStartSeedString hostNoCurses),
                       AddSeedEffect SEED_PREVENT_ALL_CURSES,
                       DebugString ''Disabling curses and restarting the run.'']\<rparr>) \<and>
   \<not> ineligible False hostA \<and> HasSeedEffect hostA SEED_PREVENT_ALL_CURSES \<and>
   currentFloors (snd (postGameStarted False hostA midSeedState)) = Map.empty \<and>
   fst (postGameStarted False hostA midSeedState) = Inr ()"
proof -
  note T1 = run_start_cases [of True hostA startedState]
  note T2 = run_start_cases [of False hostHard startedState]
  note T3 = run_start_cases [of False hostNoCurses startedState]
  note T4 = run_start_cases [of False hostA midSeedState]
  from T1 have a: "fst (postGameStarted True hostA startedState)
     = Inl (Error ''The isaac-floor-recorder mod will not work when continuing a run.'')"
    by blast
  from T2 example_hosts(5) have b: "\<exists>e. fst (postGameStarted False hostHard startedState) = Inl e"
    by blast
  from T3 example_hosts(3,8) have c: "postGameStarted False hostNoCurses startedState =
        (Inr (), startedState\<lparr>restart := True,
                    out := out startedState @
                      [DebugString (''MC_POST_GAME_STARTED - '' @ getStartSeedString hostNoCurses),
                       AddSeedEffect SEED_PREVENT_ALL_CURSES,
                       DebugString ''Disabling curses and restarting the run.'']\<rparr>)"
    by blast
  from T4 example_hosts(1,6) have d: "currentFloors (snd (postGameStarted False hostA midSeedState)) = Map.empty"
    by blast
  from T4 example_hosts(1,6) have "postGameStarted False hostA midSeedState =
        (Inr (), midSeedState\<lparr>floorsMap := nextRef midSeedState,
                    tables := (tables midSeedState)(nextRef midSeedState := Map.empty),
                    nextRef := Suc (nextRef midSeedState),
                    out := out midSeedState @ [DebugString (''MC_POST_GAME_STARTED - '' @ getStartSeedString hostA),
                                    GoToStage (recordingStage midSeedState) (recordingStageType midSeedState)]\<rparr>)"
    by blast
  then have e: "fst (postGameStarted False hostA midSeedState) = Inr ()"
    by simp
  from a b c d e example_hosts(1,3,4,5,6,8) show ?thesis
    by blast
qed

text \<open>
  C6 as the spec words it fails where it says that an accepted run loads the
  first pair. After one floor of a seed has been recorded the cursor is at
  stage 1, stage type 1; a run that starts then (the host restarted it, with a
  new seed) is accepted, and the floor loaded is (1, 1), not (1, 0).
\<close>

theorem run_start_first_pair_counterexample:
  "\<not> ineligible False hostB \<and> HasSeedEffect hostB SEED_PREVENT_ALL_CURSES \<and>
   fst (postGameStarted False hostB midSeedState) = Inr () \<and>
   newCalls midSeedState (snd (postGameStarted False hostB midSeedState))
     = [DebugString ''MC_POST_GAME_STARTED - WXYZ 5678'', GoToStage 1 1] \<and>
   GoToStage STAGE1_1 STAGETYPE_ORIGINAL
     \<notin> set (newCalls midSeedState (snd (postGameStarted False hostB midSeedState)))"
  by (simp add: postGameStarted_accepted example_hosts newCalls_def midSeedState_fields enum_defs)

section \<open>The extractor\<close>

lemma recordRooms_map_of: "recordRooms rooms m = m ++ map_of (rev (roomEntries rooms))"
proof (induction rooms arbitrary: m)
  case Nil
  show ?case by simp
next
  case (Cons d ds)
  show ?case
  proof (cases "Data d")
    case None
    then show ?thesis by (simp add: Cons.IH)
  next
    case (Some dat)
    have "m(tostring (SafeGridIndex d) \<mapsto> snapshot dat) ++ map_of (rev (roomEntries ds))
          = m ++ map_of (rev (roomEntries ds) @ [(tostring (SafeGridIndex d), snapshot dat)])"
      by (rule ext) (simp add: map_of_append map_add_def split: option.split)
    with Some show ?thesis
      by (simp add: Cons.IH snapshot_def fun_upd_def)
  qed
qed

lemma keys_roomEntries:
  "fst ` set (roomEntries rooms) = {tostring (SafeGridIndex d) | d. d \<in> set rooms \<and> Data d \<noteq> None}"
  by (induction rooms) (auto split: option.splits)

lemma length_roomEntries: "length (roomEntries rooms) = length (filter (\<lambda>d. Data d \<noteq> None) rooms)"
  by (induction rooms) (auto split: option.splits)

lemma entry_of_room:
  "d \<in> set rooms \<Longrightarrow> Data d = Some dat \<Longrightarrow>
   (tostring (SafeGridIndex d), snapshot dat) \<in> set (roomEntries rooms)"
  by (induction rooms) (auto split: option.splits)

lemma distinct_roomEntries:
  "distinct (map SafeGridIndex rooms) \<Longrightarrow> distinct (map fst (roomEntries rooms))"
proof (induction rooms)
  case Nil
  show ?case by simp
next
  case (Cons d ds)
  then have IH: "distinct (map fst (roomEntries ds))" by simp
  have "tostring (SafeGridIndex d) \<notin> fst ` set (roomEntries ds)"
  proof
    assume "tostring (SafeGridIndex d) \<in> fst ` set (roomEntries ds)"
    then obtain d' where "d' \<in> set ds" "tostring (SafeGridIndex d') = tostring (SafeGridIndex d)"
      by (auto simp: keys_roomEntries)
    then have "SafeGridIndex d \<in> SafeGridIndex ` set ds"
      by (metis imageI tostring_inj)
    with Cons.prems show False by simp
  qed
  with IH show ?case by (simp split: option.splits)
qed

lemma recordRooms_distinct:
  assumes "distinct (map SafeGridIndex rooms)" "d \<in> set rooms"
  shows "recordRooms rooms Map.empty (tostring (SafeGridIndex d)) = map_option snapshot (Data d)"
proof (cases "Data d")
  case None
  have "tostring (SafeGridIndex d) \<notin> fst ` set (roomEntries rooms)"
  proof
    assume "tostring (SafeGridIndex d) \<in> fst ` set (roomEntries rooms)"
    then obtain d' where d': "d' \<in> set rooms" "Data d' \<noteq> None"
        "tostring (SafeGridIndex d') = tostring (SafeGridIndex d)"
      by (auto simp: keys_roomEntries)
    then have "SafeGridIndex d' = SafeGridIndex d" by (simp add: tostring_inj)
    with assms d'(1) have "d' = d"
      by (auto simp: distinct_map dest: inj_onD)
    with None d'(2) show False by simp
  qed
  then have "map_of (rev (roomEntries rooms)) (tostring (SafeGridIndex d)) = None"
    by (simp add: map_of_eq_None_iff)
  with None show ?thesis by (simp add: recordRooms_map_of)
next
  case (Some dat)
  have "distinct (map fst (rev (roomEntries rooms)))"
    using distinct_roomEntries[OF assms(1)] by (simp add: rev_map[symmetric])
  moreover have "(tostring (SafeGridIndex d), snapshot dat) \<in> set (rev (roomEntries rooms))"
    using entry_of_room[OF assms(2) Some] by simp
  ultimately have "map_of (rev (roomEntries rooms)) (tostring (SafeGridIndex d)) = Some (snapshot dat)"
    by (rule map_of_is_SomeI)
  with Some show ?thesis by (simp add: recordRooms_map_of)
qed

lemma dom_recordRooms:
  "dom (recordRooms rooms Map.empty)
     = {tostring (SafeGridIndex d) | d. d \<in> set rooms \<and> Data d \<noteq> None}"
  by (simp add: recordRooms_map_of dom_map_of_conv_image_fst keys_roomEntries)

lemma card_recordRooms:
  assumes "distinct (map SafeGridIndex rooms)"
  shows "card (dom (recordRooms rooms Map.empty)) = length (filter (\<lambda>d. Data d \<noteq> None) rooms)"
proof -
  have "dom (recordRooms rooms Map.empty) = set (map fst (roomEntries rooms))"
    by (simp add: recordRooms_map_of dom_map_of_conv_image_fst)
  then have "card (dom (recordRooms rooms Map.empty)) = length (map fst (roomEntries rooms))"
    using distinct_roomEntries[OF assms] by (simp only: distinct_card)
  then show ?thesis by (simp add: length_roomEntries)
qed

text \<open>
  C7, as the code has it. \<^verbatim>\<open>recordFloor\<close> stores, under the key of the cursor,
  the rooms map built from the host's descriptors. This map is the one given by
  the entries of the descriptors with layout data, a later entry replacing an
  earlier one with the same position key; its keys are the position keys of the
  descriptors that have layout data. When the descriptors' positions are
  pairwise distinct, each descriptor with layout data is mapped to the snapshot
  of its own four fields, a descriptor without layout data has no entry, and
  the number of entries is the number of descriptors with layout data.
\<close>

theorem floor_record_of_rooms:
  "currentFloors (recordFloor h s) =
     (currentFloors s)(floorsMapIndex (recordingStage s) (recordingStageType s)
        \<mapsto> recordRooms (getRooms h) Map.empty) \<and>
   recordRooms rooms Map.empty = map_of (rev (roomEntries rooms)) \<and>
   dom (recordRooms rooms Map.empty)
     = {tostring (SafeGridIndex d) | d. d \<in> set rooms \<and> Data d \<noteq> None} \<and>
   (distinct (map SafeGridIndex rooms) \<longrightarrow>
      (\<forall>d\<in>set rooms. recordRooms rooms Map.empty (tostring (SafeGridIndex d))
                        = map_option snapshot (Data d)) \<and>
      card (dom (recordRooms rooms Map.empty))
        = length (filter (\<lambda>d. Data d \<noteq> None) rooms))"
proof -
  have a: "currentFloors (recordFloor h s) =
     (currentFloors s)(floorsMapIndex (recordingStage s) (recordingStageType s)
        \<mapsto> recordRooms (getRooms h) Map.empty)"
    by (simp add: recordFloor_def currentFloors_def Let_def)
  have b: "recordRooms rooms Map.empty = map_of (rev (roomEntries rooms))"
    by (simp add: recordRooms_map_of)
  from a b dom_recordRooms[of rooms] recordRooms_distinct[of rooms] card_recordRooms[of rooms]
  show ?thesis by blast
qed

lemmas room_defs = roomAt_def roomWithoutData_def

theorem floor_record_of_rooms_witness:
  "distinct (map SafeGridIndex fiveRooms) \<and> length fiveRooms = 5 \<and>
   length (filter (\<lambda>d. Data d = None) fiveRooms) = 1 \<and>
   card (dom (recordRooms fiveRooms Map.empty)) = 4 \<and>
   roomAt 71 2 \<in> set fiveRooms \<and>
   recordRooms fiveRooms Map.empty ''71''
     = Some \<lparr> shape = 2, stageID = 1, variant = 0, subType = 0 \<rparr> \<and>
   roomWithoutData (- 1) \<in> set fiveRooms \<and>
   recordRooms fiveRooms Map.empty ''-1'' = None"
proof -
  have d: "distinct (map SafeGridIndex fiveRooms)"
    by (simp add: fiveRooms_def room_defs)
  have l: "length fiveRooms = 5" "length (filter (\<lambda>d. Data d = None) fiveRooms) = 1"
    "length (filter (\<lambda>d. Data d \<noteq> None) fiveRooms) = 4"
    by (simp_all add: fiveRooms_def room_defs)
  have m: "roomAt 71 2 \<in> set fiveRooms" "roomWithoutData (- 1) \<in> set fiveRooms"
    by (simp_all add: fiveRooms_def)
  have k: "tostring (SafeGridIndex (roomAt 71 2)) = ''71''"
    "tostring (SafeGridIndex (roomWithoutData (- 1))) = ''-1''"
    "map_option snapshot (Data (roomAt 71 2))
       = Some \<lparr> shape = 2, stageID = 1, variant = 0, subType = 0 \<rparr>"
    "map_option snapshot (Data (roomWithoutData (- 1))) = None"
    by (simp_all add: room_defs tostring_eval snapshot_def)
  note T = floor_record_of_rooms [of hostA startedState fiveRooms]
  from T d have c: "card (dom (recordRooms fiveRooms Map.empty))
        = length (filter (\<lambda>d. Data d \<noteq> None) fiveRooms)"
    by blast
  from T d m(1) have "recordRooms fiveRooms Map.empty (tostring (SafeGridIndex (roomAt 71 2)))
                        = map_option snapshot (Data (roomAt 71 2))"
    by blast
  then have a: "recordRooms fiveRooms Map.empty ''71''
     = Some \<lparr> shape = 2, stageID = 1, variant = 0, subType = 0 \<rparr>"
    by (simp only: k)
  from T d m(2) have "recordRooms fiveRooms Map.empty (tostring (SafeGridIndex (roomWithoutData (- 1))))
                        = map_option snapshot (Data (roomWithoutData (- 1)))"
    by blast
  then have b: "recordRooms fiveRooms Map.empty ''-1'' = None"
    by (simp only: k)
  from c l(3) have c': "card (dom (recordRooms fiveRooms Map.empty)) = 4"
    by simp
  from d l(1,2) c' m a b show ?thesis
    by blast
qed

text \<open>
  C7 as the spec words it fails when two descriptors have the same position.
  Of five descriptors, one without layout data and two at position 84, the
  floor recorded has three entries, not four, and the first descriptor at
  position 84 is not mapped to the snapshot of its own fields (shape 1) but to
  that of the later one (shape 2).
\<close>

theorem floor_record_same_position_counterexample:
  "getRooms hostDup = dupRooms \<and> length dupRooms = 5 \<and>
   length (filter (\<lambda>d. Data d = None) dupRooms) = 1 \<and>
   currentFloors (recordFloor hostDup startedState) ''1.0''
     = Some (recordRooms dupRooms Map.empty) \<and>
   card (dom (recordRooms dupRooms Map.empty)) = 3 \<and>
   roomAt 84 1 \<in> set dupRooms \<and>
   Data (roomAt 84 1) = Some \<lparr> Shape = 1, StageID = 1, Variant = 0, Subtype = 0 \<rparr> \<and>
   recordRooms dupRooms Map.empty (tostring (SafeGridIndex (roomAt 84 1)))
     = Some \<lparr> shape = 2, stageID = 1, variant = 0, subType = 0 \<rparr> \<and>
   recordRooms dupRooms Map.empty (tostring (SafeGridIndex (roomAt 84 1)))
     \<noteq> Some \<lparr> shape = 1, stageID = 1, variant = 0, subType = 0 \<rparr>"
proof -
  have dom: "dom (recordRooms dupRooms Map.empty) = {''84'', ''85'', ''86''}"
    by (auto simp: dupRooms_def room_defs tostring_eval split: if_splits)
  have ne: "''84'' \<noteq> ''85''" "''84'' \<noteq> ''86''" "''85'' \<noteq> ''86''"
    by simp_all
  have card: "card (dom (recordRooms dupRooms Map.empty)) = 3"
    by (simp add: dom)
  have f: "currentFloors (recordFloor hostDup startedState) ''1.0''
     = Some (recordRooms dupRooms Map.empty)"
    by (simp add: recordFloor_def currentFloors_def hostDup_def startedState_eq
          floorsMapIndex_def tostring_eval Let_def)
  have r: "recordRooms dupRooms Map.empty (tostring (SafeGridIndex (roomAt 84 1)))
     = Some \<lparr> shape = 2, stageID = 1, variant = 0, subType = 0 \<rparr>"
    by (simp add: dupRooms_def room_defs tostring_eval)
  show ?thesis
    using card f r
    by (simp add: hostDup_def) (simp add: dupRooms_def room_defs)
qed

section \<open>The fold and the batcher\<close>

lemma dataset_cong:
  "tables s' = tables s \<Longrightarrow> seedsMap s' = seedsMap s \<Longrightarrow> dataset s' = dataset s"
  by (simp add: dataset_def)

lemma write_postRender:
  "(\<forall>d. SaveData d \<notin> set (newCalls s (postRender s))) \<and>
   seedsMapSize (postRender s) = seedsMapSize s"
  by (simp add: postRender_eq hostCall_def newCalls_def)

lemma write_postGameStarted:
  "(\<forall>d. SaveData d \<notin> set (newCalls s (snd (postGameStarted c h s)))) \<and>
   seedsMapSize (snd (postGameStarted c h s)) = seedsMapSize s"
  by (simp add: newCalls_def postGameStarted_def validateRun_def hostCall_def
        restartOnNextFrame_def newLuaTable_def VERBOSE_def Let_def)

lemma write_postNewLevel_within:
  "\<not> (Some (getStartSeedString h) = currentStartSeedString s \<and> seedDone (cursor s)) \<Longrightarrow>
   (\<forall>d. SaveData d \<notin> set (newCalls s (snd (postNewLevel h s)))) \<and>
   seedsMapSize (snd (postNewLevel h s)) = seedsMapSize s"
  by (cases "Some (getStartSeedString h) = currentStartSeedString s")
     (simp_all add: postNewLevel_other postNewLevel_next newCalls_def)

lemma write_postNewLevel_done:
  assumes "Some (getStartSeedString h) = currentStartSeedString s" "seedDone (cursor s)"
    "modRef s \<noteq> None"
  shows "seedsMapSize (snd (postNewLevel h s)) = Suc (seedsMapSize s)"
    and "(\<exists>d. SaveData d \<in> set (newCalls s (snd (postNewLevel h s))))
           \<longleftrightarrow> Suc (seedsMapSize s) mod 100 = 0"
    and "\<forall>d. SaveData d \<in> set (newCalls s (snd (postNewLevel h s)))
           \<longrightarrow> d = dataset (snd (postNewLevel h s))"
proof -
  obtain m where m: "modRef s = Some m" using assms(3) by auto
  show "seedsMapSize (snd (postNewLevel h s)) = Suc (seedsMapSize s)"
    using m by (simp add: postNewLevel_done[OF assms(1,2)] Let_def)
  show "(\<exists>d. SaveData d \<in> set (newCalls s (snd (postNewLevel h s))))
           \<longleftrightarrow> Suc (seedsMapSize s) mod 100 = 0"
    using m by (simp add: postNewLevel_done[OF assms(1,2)] Let_def newCalls_def)
  show "\<forall>d. SaveData d \<in> set (newCalls s (snd (postNewLevel h s)))
           \<longrightarrow> d = dataset (snd (postNewLevel h s))"
    using m by (simp add: postNewLevel_done[OF assms(1,2)] Let_def newCalls_def dataset_def)
qed

lemma write_handle:
  assumes "modRef s \<noteq> None"
  shows "((\<exists>d. SaveData d \<in> set (newCalls s (snd (handle e s)))) \<longleftrightarrow>
            seedsMapSize (snd (handle e s)) = Suc (seedsMapSize s) \<and>
            seedsMapSize (snd (handle e s)) mod 100 = 0) \<and>
         (\<forall>d. SaveData d \<in> set (newCalls s (snd (handle e s)))
            \<longrightarrow> d = dataset (snd (handle e s))) \<and>
         (seedsMapSize (snd (handle e s)) = Suc (seedsMapSize s) \<longleftrightarrow>
            (\<exists>h. e = PostNewLevel h \<and> Some (getStartSeedString h) = currentStartSeedString s \<and>
                 seedDone (cursor s))) \<and>
         (seedsMapSize (snd (handle e s)) \<noteq> Suc (seedsMapSize s) \<longrightarrow>
            seedsMapSize (snd (handle e s)) = seedsMapSize s)"
proof (cases e)
  case PostRender
  with write_postRender[of s] show ?thesis by simp
next
  case (PostGameStarted c h)
  with write_postGameStarted[of s c h] show ?thesis by simp
next
  case (PostNewLevel h)
  show ?thesis
  proof (cases "Some (getStartSeedString h) = currentStartSeedString s \<and> seedDone (cursor s)")
    case True
    with write_postNewLevel_done[of h s] assms PostNewLevel show ?thesis by simp
  next
    case False
    with write_postNewLevel_within[of h s] PostNewLevel show ?thesis by auto
  qed
qed

lemma write_fold:
  assumes "modRef s \<noteq> None"
  shows "((\<exists>d. SaveData d \<in> set (newCalls s (snd (recordAllFloorsToSeedMap h s))))
            \<longleftrightarrow> Suc (seedsMapSize s) mod 100 = 0) \<and>
         seedsMapSize (snd (recordAllFloorsToSeedMap h s)) = Suc (seedsMapSize s)"
proof -
  obtain m where m: "modRef s = Some m" using assms by auto
  then show ?thesis
    by (simp add: recordAllFloorsToSeedMap_eq Let_def newCalls_def)
qed

lemma modRef_handle: "modRef (snd (handle e s)) = modRef s"
proof (cases e)
  case PostRender
  then show ?thesis by (simp add: postRender_eq hostCall_def)
next
  case (PostGameStarted c h)
  then show ?thesis
    by (simp add: postGameStarted_def validateRun_def hostCall_def restartOnNextFrame_def
          newLuaTable_def VERBOSE_def Let_def)
next
  case (PostNewLevel h)
  consider (other) "Some (getStartSeedString h) \<noteq> currentStartSeedString s"
    | (nxt) "Some (getStartSeedString h) = currentStartSeedString s" "\<not> seedDone (cursor s)"
    | (fin) "Some (getStartSeedString h) = currentStartSeedString s" "seedDone (cursor s)"
    by blast
  then show ?thesis
  proof cases
    case other
    with PostNewLevel show ?thesis by (simp add: postNewLevel_other)
  next
    case nxt
    with PostNewLevel show ?thesis by (simp add: postNewLevel_next)
  next
    case fin
    with PostNewLevel show ?thesis
      by (simp add: postNewLevel_done Let_def split: option.split)
  qed
qed

text \<open>
  The callbacks run only after \<^verbatim>\<open>main\<close> has registered them, and none of them
  assigns \<^verbatim>\<open>mod\<close>: whenever one of them runs, the mod is registered.
\<close>

lemma mod_registered: "modRef (run evs (main s)) \<noteq> None"
proof -
  have "modRef (run evs t) = modRef t" for t
    by (induction evs arbitrary: t) (simp_all add: modRef_handle)
  then show ?thesis
    by (simp add: main_def hostCall_def Let_def)
qed

text \<open>
  C3. In a state reached after \<^verbatim>\<open>main\<close> has registered the mod, one event
  makes the callbacks save the data exactly when it completes a seed (the
  counter goes up by one, which only a floor arrival of the remembered seed at
  the end of the traversal does) and the new counter is a positive multiple of
  100. What is saved is the whole Dataset as it then is. \<^verbatim>\<open>recordFloor\<close>
  itself calls nothing, and the fold \<^verbatim>\<open>recordAllFloorsToSeedMap\<close> saves exactly
  when the counter it has incremented is a multiple of 100.
\<close>

theorem durable_write_every_100_seeds:
  assumes "modRef s \<noteq> None"
  shows "((\<exists>d. SaveData d \<in> set (newCalls s (snd (handle e s)))) \<longleftrightarrow>
            seedsMapSize (snd (handle e s)) = Suc (seedsMapSize s) \<and>
            0 < seedsMapSize (snd (handle e s)) \<and>
            seedsMapSize (snd (handle e s)) mod NUMBER_OF_SEEDS_BEFORE_WRITING_TO_DISK = 0) \<and>
         (\<forall>d. SaveData d \<in> set (newCalls s (snd (handle e s)))
            \<longrightarrow> d = dataset (snd (handle e s))) \<and>
         (seedsMapSize (snd (handle e s)) = Suc (seedsMapSize s) \<longleftrightarrow>
            (\<exists>h. e = PostNewLevel h \<and> Some (getStartSeedString h) = currentStartSeedString s \<and>
                 seedDone (cursor s))) \<and>
         (seedsMapSize (snd (handle e s)) \<noteq> Suc (seedsMapSize s) \<longrightarrow>
            seedsMapSize (snd (handle e s)) = seedsMapSize s) \<and>
         newCalls s (recordFloor h s) = [] \<and>
         ((\<exists>d. SaveData d \<in> set (newCalls s (snd (recordAllFloorsToSeedMap h s))))
            \<longleftrightarrow> Suc (seedsMapSize s) mod NUMBER_OF_SEEDS_BEFORE_WRITING_TO_DISK = 0) \<and>
         NUMBER_OF_SEEDS_BEFORE_WRITING_TO_DISK = 100"
proof -
  have r: "newCalls s (recordFloor h s) = []"
    by (simp add: recordFloor_def newCalls_def Let_def)
  note N = NUMBER_OF_SEEDS_BEFORE_WRITING_TO_DISK_def
  note H = write_handle[OF assms, of e]
  have a: "(\<exists>d. SaveData d \<in> set (newCalls s (snd (handle e s)))) \<longleftrightarrow>
            seedsMapSize (snd (handle e s)) = Suc (seedsMapSize s) \<and>
            0 < seedsMapSize (snd (handle e s)) \<and>
            seedsMapSize (snd (handle e s)) mod NUMBER_OF_SEEDS_BEFORE_WRITING_TO_DISK = 0"
    using H[THEN conjunct1] by (auto simp: N)
  note b = H[THEN conjunct2, THEN conjunct1]
  note c = H[THEN conjunct2, THEN conjunct2, THEN conjunct1]
  note d = H[THEN conjunct2, THEN conjunct2, THEN conjunct2]
  from write_fold[OF assms, of h]
  have f: "(\<exists>d. SaveData d \<in> set (newCalls s (snd (recordAllFloorsToSeedMap h s))))
            \<longleftrightarrow> Suc (seedsMapSize s) mod NUMBER_OF_SEEDS_BEFORE_WRITING_TO_DISK = 0"
    by (simp add: N)
  have n: "NUMBER_OF_SEEDS_BEFORE_WRITING_TO_DISK = 100"
    by (simp add: N)
  from a b c d r f n show ?thesis
    by (intro conjI)
qed

lemma stateAtLastFloor_facts:
  "modRef (stateAtLastFloor n) \<noteq> None"
  "Some (getStartSeedString hostA) = currentStartSeedString (stateAtLastFloor n)"
  "seedDone (cursor (stateAtLastFloor n))"
  "seedsMapSize (stateAtLastFloor n) = n"
  by (simp_all add: stateAtLastFloor_def startedState_eq hostA_def cursor_def done_last)

lemma fold_at_last_floor:
  "seedsMapSize (snd (postNewLevel hostA (stateAtLastFloor n))) = Suc n"
  using write_postNewLevel_done(1)[OF stateAtLastFloor_facts(2,3,1), of n]
  by (simp add: stateAtLastFloor_facts)

theorem durable_write_every_100_seeds_witness:
  "modRef (stateAtLastFloor 99) \<noteq> None \<and>
   seedsMapSize (snd (handle (PostNewLevel hostA) (stateAtLastFloor 99))) = 100 \<and>
   (\<exists>d. SaveData d \<in> set (newCalls (stateAtLastFloor 99)
           (snd (handle (PostNewLevel hostA) (stateAtLastFloor 99))))) \<and>
   SaveData (dataset (snd (handle (PostNewLevel hostA) (stateAtLastFloor 99))))
     \<in> set (newCalls (stateAtLastFloor 99)
           (snd (handle (PostNewLevel hostA) (stateAtLastFloor 99)))) \<and>
   seedsMapSize (snd (handle (PostNewLevel hostA) (stateAtLastFloor 199))) = 200 \<and>
   (\<exists>d. SaveData d \<in> set (newCalls (stateAtLastFloor 199)
           (snd (handle (PostNewLevel hostA) (stateAtLastFloor 199))))) \<and>
   seedsMapSize (snd (handle (PostNewLevel hostA) (stateAtLastFloor 36))) = 37 \<and>
   \<not> (\<exists>d. SaveData d \<in> set (newCalls (stateAtLastFloor 36)
           (snd (handle (PostNewLevel hostA) (stateAtLastFloor 36))))) \<and>
   modRef midSeedState \<noteq> None \<and>
   \<not> (\<exists>d. SaveData d \<in> set (newCalls midSeedState
           (snd (handle (PostNewLevel hostA) midSeedState))))"
proof -
  note N = NUMBER_OF_SEEDS_BEFORE_WRITING_TO_DISK_def
  have m: "modRef midSeedState \<noteq> None"
    by (simp add: midSeedState_fields)
  have nd: "\<not> seedDone (cursor midSeedState)"
    by (simp add: cursor_def midSeedState_fields seedDone_def skipStage_def skipStageType_def
          getMaxStageType_def enum_defs)
  have a: "seedsMapSize (snd (handle (PostNewLevel hostA) (stateAtLastFloor 99))) = 100"
    "seedsMapSize (snd (handle (PostNewLevel hostA) (stateAtLastFloor 199))) = 200"
    "seedsMapSize (snd (handle (PostNewLevel hostA) (stateAtLastFloor 36))) = 37"
    by (simp_all add: fold_at_last_floor)
  note T1 = durable_write_every_100_seeds [OF stateAtLastFloor_facts(1), of 99 "PostNewLevel hostA" hostA]
  note T2 = durable_write_every_100_seeds [OF stateAtLastFloor_facts(1), of 199 "PostNewLevel hostA" hostA]
  note T3 = durable_write_every_100_seeds [OF stateAtLastFloor_facts(1), of 36 "PostNewLevel hostA" hostA]
  note T4 = durable_write_every_100_seeds [OF m, of "PostNewLevel hostA" hostA]
  from T1 have w1: "\<exists>d. SaveData d \<in> set (newCalls (stateAtLastFloor 99)
           (snd (handle (PostNewLevel hostA) (stateAtLastFloor 99))))"
    by (simp add: fold_at_last_floor stateAtLastFloor_facts N)
  from T2 have w2: "\<exists>d. SaveData d \<in> set (newCalls (stateAtLastFloor 199)
           (snd (handle (PostNewLevel hostA) (stateAtLastFloor 199))))"
    by (simp add: fold_at_last_floor stateAtLastFloor_facts N)
  from T3 have w3: "\<not> (\<exists>d. SaveData d \<in> set (newCalls (stateAtLastFloor 36)
           (snd (handle (PostNewLevel hostA) (stateAtLastFloor 36)))))"
    by (simp add: fold_at_last_floor stateAtLastFloor_facts N)
  from T4 nd have w4: "\<not> (\<exists>d. SaveData d \<in> set (newCalls midSeedState
           (snd (handle (PostNewLevel hostA) midSeedState))))"
    by simp
  from T1[THEN conjunct2, THEN conjunct1] w1
  have p1: "SaveData (dataset (snd (handle (PostNewLevel hostA) (stateAtLastFloor 99))))
     \<in> set (newCalls (stateAtLastFloor 99)
           (snd (handle (PostNewLevel hostA) (stateAtLastFloor 99))))"
    by blast
  from stateAtLastFloor_facts(1)[of 99] a(1) w1 p1 a(2) w2 a(3) w3 m w4 show ?thesis
    by (intro conjI)
qed

text \<open>
  C4, as the code has it. The fold stores the address of the floors table in
  progress under the seed string the host reports, whether or not the Dataset
  has an entry for that seed string already: the Dataset afterwards is the old
  one with this one entry set to the table in progress, every other entry
  kept, and the counter is one more. Nothing is raised on account of an
  existing entry: the only error of the fold is the one of an unregistered mod
  when the data is due to be saved.
\<close>

theorem fold_replaces_entry:
  "seedsMap (snd (recordAllFloorsToSeedMap h s))
     = (seedsMap s)(getStartSeedString h \<mapsto> floorsMap s) \<and>
   dataset (snd (recordAllFloorsToSeedMap h s))
     = (dataset s)(getStartSeedString h \<mapsto> currentFloors s) \<and>
   seedsMapSize (snd (recordAllFloorsToSeedMap h s)) = Suc (seedsMapSize s) \<and>
   (modRef s \<noteq> None \<longrightarrow> fst (recordAllFloorsToSeedMap h s) = Inr ()) \<and>
   (\<forall>e. fst (recordAllFloorsToSeedMap h s) = Inl e \<longrightarrow>
        e = Error ''Mod was not initialized.'' \<and> modRef s = None \<and>
        Suc (seedsMapSize s) mod NUMBER_OF_SEEDS_BEFORE_WRITING_TO_DISK = 0)"
  by (auto simp: recordAllFloorsToSeedMap_eq Let_def dataset_def currentFloors_def fun_eq_iff
        NUMBER_OF_SEEDS_BEFORE_WRITING_TO_DISK_def split: option.splits)

lemma refoldState_fields:
  "modRef refoldState \<noteq> None" "seedsMap refoldState = [''ABCD 1234'' \<mapsto> 2]"
  "floorsMap refoldState = 3" "seedsMapSize refoldState = 1"
  "tables refoldState 2 = [''1.0'' \<mapsto> Map.empty]" "tables refoldState 3 = Map.empty"
  "recordingStage refoldState = 12" "recordingStageType refoldState = 0"
  by (simp_all add: refoldState_def startedState_eq)

lemma refold_recorded:
  "modRef (recordFloor hostA refoldState) \<noteq> None"
  "seedsMap (recordFloor hostA refoldState) = [''ABCD 1234'' \<mapsto> 2]"
  "floorsMap (recordFloor hostA refoldState) = 3"
  "seedsMapSize (recordFloor hostA refoldState) = 1"
  "tables (recordFloor hostA refoldState) 2 = [''1.0'' \<mapsto> Map.empty]"
  "tables (recordFloor hostA refoldState) 3 = [''12.0'' \<mapsto> recordRooms (getRooms hostA) Map.empty]"
  by (simp_all add: recordFloor_def refoldState_fields floorsMapIndex_def tostring_eval Let_def)

theorem fold_replaces_entry_witness:
  "modRef (recordFloor hostA refoldState) \<noteq> None \<and>
   fst (recordAllFloorsToSeedMap hostA (recordFloor hostA refoldState)) = Inr () \<and>
   seedsMapSize (snd (recordAllFloorsToSeedMap hostA (recordFloor hostA refoldState))) = 2 \<and>
   dataset (snd (recordAllFloorsToSeedMap hostA (recordFloor hostA refoldState))) ''ABCD 1234''
     = Some [''12.0'' \<mapsto> recordRooms (getRooms hostA) Map.empty] \<and>
   modRef (initial\<lparr>seedsMapSize := 99\<rparr>) = None \<and>
   fst (recordAllFloorsToSeedMap hostA (initial\<lparr>seedsMapSize := 99\<rparr>))
     = Inl (Error ''Mod was not initialized.'')"
proof -
  note U = fold_replaces_entry [of hostA "initial\<lparr>seedsMapSize := 99\<rparr>"]
  have n: "modRef (initial\<lparr>seedsMapSize := 99\<rparr>) = None"
    by (simp add: initial_def)
  have "\<exists>e. fst (recordAllFloorsToSeedMap hostA (initial\<lparr>seedsMapSize := 99\<rparr>)) = Inl e"
    by (simp add: recordAllFloorsToSeedMap_eq Let_def initial_def)
  with U have u: "fst (recordAllFloorsToSeedMap hostA (initial\<lparr>seedsMapSize := 99\<rparr>))
     = Inl (Error ''Mod was not initialized.'')"
    by metis
  note T = fold_replaces_entry [of hostA "recordFloor hostA refoldState"]
  from T refold_recorded(1)
  have a: "fst (recordAllFloorsToSeedMap hostA (recordFloor hostA refoldState)) = Inr ()"
    by blast
  from T have b: "seedsMapSize (snd (recordAllFloorsToSeedMap hostA (recordFloor hostA refoldState))) = 2"
    by (simp add: refold_recorded)
  from T have "dataset (snd (recordAllFloorsToSeedMap hostA (recordFloor hostA refoldState)))
     = (dataset (recordFloor hostA refoldState))(getStartSeedString hostA
          \<mapsto> currentFloors (recordFloor hostA refoldState))"
    by blast
  then have c: "dataset (snd (recordAllFloorsToSeedMap hostA (recordFloor hostA refoldState))) ''ABCD 1234''
     = Some [''12.0'' \<mapsto> recordRooms (getRooms hostA) Map.empty]"
    by (simp add: example_hosts(9) currentFloors_def refold_recorded)
  from refold_recorded(1) a b c n u show ?thesis
    by (intro conjI)
qed

text \<open>
  C4 as the spec words it fails on re-entry into a completed seed. The Dataset
  holds an entry for the seed \<^verbatim>\<open>ABCD 1234\<close>, with the floor \<^verbatim>\<open>1.0\<close>; the seed
  is traversed again and folded at its last floor. The fold returns normally,
  the entry is now the new table (which has the floor \<^verbatim>\<open>12.0\<close> only), and the
  counter says two seeds where the Dataset has one.
\<close>

theorem fold_overwrites_silently_counterexample:
  "dom (dataset (recordFloor hostA refoldState)) = {''ABCD 1234''} \<and>
   dataset (recordFloor hostA refoldState) ''ABCD 1234'' = Some [''1.0'' \<mapsto> Map.empty] \<and>
   getStartSeedString hostA = ''ABCD 1234'' \<and>
   fst (recordAllFloorsToSeedMap hostA (recordFloor hostA refoldState)) = Inr () \<and>
   dataset (snd (recordAllFloorsToSeedMap hostA (recordFloor hostA refoldState))) ''ABCD 1234''
     = Some [''12.0'' \<mapsto> recordRooms (getRooms hostA) Map.empty] \<and>
   [''12.0'' \<mapsto> recordRooms (getRooms hostA) Map.empty] \<noteq> [''1.0'' \<mapsto> (Map.empty :: RoomsMap)] \<and>
   dom (dataset (snd (recordAllFloorsToSeedMap hostA (recordFloor hostA refoldState))))
     = {''ABCD 1234''} \<and>
   seedsMapSize (snd (recordAllFloorsToSeedMap hostA (recordFloor hostA refoldState))) = 2"
proof -
  obtain m where m: "modRef (recordFloor hostA refoldState) = Some m"
    using refold_recorded(1) by auto
  note g = example_hosts(9)
  have d0: "dataset (recordFloor hostA refoldState) = [''ABCD 1234'' \<mapsto> [''1.0'' \<mapsto> Map.empty]]"
    by (simp add: dataset_def refold_recorded fun_eq_iff)
  have r: "fst (recordAllFloorsToSeedMap hostA (recordFloor hostA refoldState)) = Inr ()"
    "seedsMapSize (snd (recordAllFloorsToSeedMap hostA (recordFloor hostA refoldState))) = 2"
    using m by (simp_all add: recordAllFloorsToSeedMap_eq Let_def refold_recorded)
  have d1: "dataset (snd (recordAllFloorsToSeedMap hostA (recordFloor hostA refoldState)))
      = [''ABCD 1234'' \<mapsto> [''12.0'' \<mapsto> recordRooms (getRooms hostA) Map.empty]]"
    using m by (simp add: recordAllFloorsToSeedMap_eq Let_def dataset_def refold_recorded g fun_eq_iff)
  have ne: "[''12.0'' \<mapsto> recordRooms (getRooms hostA) Map.empty] \<noteq> [''1.0'' \<mapsto> (Map.empty :: RoomsMap)]"
  proof
    assume "[''12.0'' \<mapsto> recordRooms (getRooms hostA) Map.empty] = [''1.0'' \<mapsto> (Map.empty :: RoomsMap)]"
    then have "dom [''12.0'' \<mapsto> recordRooms (getRooms hostA) Map.empty] = dom [''1.0'' \<mapsto> (Map.empty :: RoomsMap)]"
      by (rule arg_cong)
    then show False by simp
  qed
  show ?thesis
    using g r ne by (simp add: d0 d1)
qed

end
